theory Spec2Isabelle
  imports Complex_Main
begin

section \<open>Numbers\<close>

text \<open>
  A JavaScript number is an IEEE-754 binary64 value. It is modelled as follows.

  \<^item> A position that the client stores (of a player, of a companion, of the viewport) is
    a \<^typ>\<open>real\<close>: a finite number. NaN and the infinities are not among the positions.
  \<^item> The viewport is computed over the reals. Its comparisons, \<open>Math.max\<close> and \<open>Math.min\<close>
    are exact on doubles, so what is proved of the clamping does not depend on rounding.
  \<^item> The two coordinate conversions are written once, for any number type with \<open>+\<close> and
    \<open>-\<close>, and are read both over \<^typ>\<open>real\<close> and over the type \<open>double\<close> below, whose
    \<open>+\<close> and \<open>-\<close> round the exact result to the nearest value with a 53-bit significand,
    ties to even, as IEEE-754 prescribes for binary64. The exponent range is unbounded
    in \<open>fl\<close>: overflow does not arise for world coordinates, and a sum or difference of
    two binary64 values that falls into the subnormal range is exact.
  \<^item> The companion simulator computes in binary64 with its exponent range: every
    operation rounds its exact result with \<open>round64\<close>, which has the subnormal numbers and
    overflows to an infinity. An intermediate result is a \<open>number\<close>: finite or infinite
    (the simulator's operations give no NaN from finite positions). The sign of a zero
    is not modelled. \<open>Math.atan2\<close>, \<open>Math.cos\<close> and \<open>Math.sin\<close>, whose accuracy the
    language leaves to the implementation, are parameters of the simulator.
\<close>

definition roundTiesToEven :: "real \<Rightarrow> int" where
  "roundTiesToEven r =
     (let f = \<lfloor>r\<rfloor> in
      if r - of_int f < 1 / 2 then f
      else if 1 / 2 < r - of_int f then f + 1
      else if even f then f else f + 1)"

definition fl :: "real \<Rightarrow> real" where
  "fl r = (if r = 0 then 0
           else let s = 2 powi (\<lfloor>log 2 \<bar>r\<bar>\<rfloor> - 52)
                in of_int (roundTiesToEven (r / s)) * s)"

datatype double = Double (dval: real)

instantiation double :: "{plus,minus}"
begin

definition plus_double :: "double \<Rightarrow> double \<Rightarrow> double" where
  "plus_double a b = Double (fl (dval a + dval b))"

definition minus_double :: "double \<Rightarrow> double \<Rightarrow> double" where
  "minus_double a b = Double (fl (dval a - dval b))"

instance ..

end

text \<open>\<open>Math.atan2(y, x)\<close> on finite arguments, by the quadrant of \<open>(x, y)\<close>.\<close>

definition atan2 :: "real \<Rightarrow> real \<Rightarrow> real" where
  "atan2 y x =
     (if 0 < x then arctan (y / x)
      else if x < 0 then (if 0 \<le> y then arctan (y / x) + pi else arctan (y / x) - pi)
      else if 0 < y then pi / 2
      else if y < 0 then - (pi / 2)
      else 0)"

text \<open>The intermediate results of the companion simulator: a finite number or an infinity.\<close>

datatype number = Finite real | PosInf | NegInf

text \<open>The smallest positive normal binary64 number, the spacing of the subnormal numbers,
  and the size from which a rounded result overflows.\<close>

definition minNormal :: real where
  "minNormal = 2 powi (- 1022)"

definition subnormalUnit :: real where
  "subnormalUnit = 2 powi (- 1074)"

definition overflowThreshold :: real where
  "overflowThreshold = 2 powi 1024"

text \<open>Rounding of an exact result to binary64, to nearest with ties to even: on the grid of
  the subnormal numbers below \<open>minNormal\<close>, to 53 significant bits above, to an infinity
  when the rounded size reaches \<open>overflowThreshold\<close>.\<close>

definition round64 :: "real \<Rightarrow> number" where
  "round64 r =
     (if \<bar>r\<bar> < minNormal
      then Finite (of_int (roundTiesToEven (r / subnormalUnit)) * subnormalUnit)
      else if overflowThreshold \<le> \<bar>fl r\<bar> then (if 0 < r then PosInf else NegInf)
      else Finite (fl r))"

text \<open>\<open>a - b\<close> and \<open>a * b\<close> of finite numbers; \<open>a + b\<close> of a finite number and a
  number.\<close>

definition sub64 :: "real \<Rightarrow> real \<Rightarrow> number" where
  "sub64 a b = round64 (a - b)"

definition mul64 :: "real \<Rightarrow> real \<Rightarrow> number" where
  "mul64 a b = round64 (a * b)"

fun add64 :: "real \<Rightarrow> number \<Rightarrow> number" where
  "add64 a (Finite b) = round64 (a + b)"
| "add64 a PosInf = PosInf"
| "add64 a NegInf = NegInf"

text \<open>\<open>Math.abs(a)\<close> and the comparison \<open>a > b\<close>.\<close>

fun abs64 :: "number \<Rightarrow> number" where
  "abs64 (Finite a) = Finite \<bar>a\<bar>"
| "abs64 PosInf = PosInf"
| "abs64 NegInf = PosInf"

fun gt64 :: "number \<Rightarrow> number \<Rightarrow> bool" where
  "gt64 (Finite a) (Finite b) = (b < a)"
| "gt64 (Finite a) PosInf = False"
| "gt64 (Finite a) NegInf = True"
| "gt64 PosInf PosInf = False"
| "gt64 PosInf b = True"
| "gt64 NegInf b = False"

text \<open>\<open>Math.sqrt(dx * dx + dy * dy)\<close>: each square, the sum and the root are rounded. An
  infinite \<open>dx\<close> or \<open>dy\<close>, or a square or a sum that overflows, makes the result
  \<open>Infinity\<close>; a square is never negative, so no \<open>Infinity - Infinity\<close> arises.\<close>

definition distance64 :: "number \<Rightarrow> number \<Rightarrow> number" where
  "distance64 dx dy =
     (case (dx, dy) of
        (Finite a, Finite b) \<Rightarrow>
          (case (mul64 a a, mul64 b b) of
             (Finite a2, Finite b2) \<Rightarrow>
               (case round64 (a2 + b2) of
                  Finite ab \<Rightarrow> round64 (sqrt ab)
                | _ \<Rightarrow> PosInf)
           | _ \<Rightarrow> PosInf)
      | _ \<Rightarrow> PosInf)"

text \<open>\<open>Math.max(0, Math.min(x, hi))\<close>, which is finite whatever \<open>x\<close> is.\<close>

fun clamp64 :: "number \<Rightarrow> real \<Rightarrow> real" where
  "clamp64 (Finite x) hi = max 0 (min x hi)"
| "clamp64 PosInf hi = max 0 hi"
| "clamp64 NegInf hi = 0"

text \<open>The three functions of \<open>Math\<close> that the simulator calls and whose results depend on
  the implementation. Each returns a finite number on the arguments it gets here.\<close>

record mathLib =
  Math_atan2 :: "number \<Rightarrow> number \<Rightarrow> real"
  Math_cos :: "real \<Rightarrow> real"
  Math_sin :: "real \<Rightarrow> real"

text \<open>\<open>atan2\<close> with infinite arguments, as the language defines it there.\<close>

fun atan2n :: "number \<Rightarrow> number \<Rightarrow> real" where
  "atan2n (Finite y) (Finite x) = atan2 y x"
| "atan2n (Finite y) PosInf = 0"
| "atan2n (Finite y) NegInf = (if 0 \<le> y then pi else - pi)"
| "atan2n PosInf (Finite x) = pi / 2"
| "atan2n NegInf (Finite x) = - (pi / 2)"
| "atan2n PosInf PosInf = pi / 4"
| "atan2n PosInf NegInf = 3 * pi / 4"
| "atan2n NegInf PosInf = - (pi / 4)"
| "atan2n NegInf NegInf = - (3 * pi / 4)"

text \<open>One \<open>Math\<close>: the library whose every result is the exact one, correctly rounded. At
  \<open>atan2(0, x)\<close> with \<open>x > 0\<close>, \<open>cos(0)\<close> and \<open>sin(0)\<close> the language fixes the results
  (\<open>0\<close>, \<open>1\<close>, \<open>0\<close>), which are those of every implementation.\<close>

definition roundedMath :: mathLib where
  "roundedMath =
     \<lparr>Math_atan2 = (\<lambda>y x. fl (atan2n y x)),
      Math_cos = (\<lambda>a. fl (cos a)),
      Math_sin = (\<lambda>a. fl (sin a))\<rparr>"

section \<open>World, viewport and coordinate conversion\<close>

text \<open>The constructor sets \<open>this.worldWidth = 2048\<close> and \<open>this.worldHeight = 2048\<close>;
  nothing assigns them again.\<close>

definition worldWidth :: real where
  "worldWidth = 2048"

definition worldHeight :: real where
  "worldHeight = 2048"

record 'a pos =
  pos_x :: 'a
  pos_y :: 'a

record 'a viewport =
  v_x :: 'a
  v_y :: 'a
  v_width :: 'a
  v_height :: 'a

definition worldToScreen :: "('a::{plus,minus}) viewport \<Rightarrow> 'a \<Rightarrow> 'a \<Rightarrow> 'a pos" where
  "worldToScreen v worldX worldY = \<lparr>pos_x = worldX - v_x v, pos_y = worldY - v_y v\<rparr>"

definition screenToWorld :: "('a::{plus,minus}) viewport \<Rightarrow> 'a \<Rightarrow> 'a \<Rightarrow> 'a pos" where
  "screenToWorld v screenX screenY = \<lparr>pos_x = screenX + v_x v, pos_y = screenY + v_y v\<rparr>"

section \<open>The entity store\<close>

text \<open>
  A player and an avatar definition are the JSON objects of the server's messages, read
  with the fields the client uses. An avatar's \<open>frames\<close> may be missing, which
  \<open>Object.entries\<close> answers with a \<open>TypeError\<close>; an image is represented by its \<open>src\<close>.
\<close>

record player =
  p_id :: string
  p_username :: string
  p_x :: real
  p_y :: real
  p_facing :: string
  p_animationFrame :: nat
  p_avatar :: string

record avatar =
  a_name :: string
  a_frames :: "(string \<times> string list) list option"
  a_images :: "(string \<times> string list) list option"

datatype facing = North | South | East | West

record npc =
  n_id :: string
  n_name :: string
  n_x :: real
  n_y :: real
  n_avatar :: string
  followDistance :: real
  facing :: facing
  isMoving :: bool
  animationFrame :: nat
  lastUpdate :: int

datatype readyState = CONNECTING | OPEN | CLOSED

datatype outbound = JoinGame string | Move string | Stop

text \<open>
  The client object. A JavaScript \<open>Map\<close> is an association list in insertion order.
  \<open>timers\<close> holds the delays of the \<open>setTimeout\<close> callbacks that have not fired yet,
  \<open>scheduled\<close> the delays of all \<open>setTimeout\<close> calls made so far, \<open>sent\<close> what
  \<open>ws.send\<close> was given. \<open>ws\<close> is the ready state of \<open>this.ws\<close> (\<open>None\<close>: \<open>null\<close>).
\<close>

record client =
  players :: "(string \<times> player) list"
  avatars :: "(string \<times> avatar) list"
  myPlayerId :: "string option"
  myPlayer :: "player option"
  npcs :: "(string \<times> npc) list"
  npcAvatars :: "(string \<times> avatar) list"
  viewport :: "real viewport"
  ws :: "readyState option"
  reconnectAttempts :: nat
  timers :: "nat list"
  scheduled :: "nat list"
  sent :: "outbound list"

text \<open>\<open>Map.prototype.set\<close>: an existing key keeps its place, a new key goes last.\<close>

fun mapSet :: "'k \<Rightarrow> 'v \<Rightarrow> ('k \<times> 'v) list \<Rightarrow> ('k \<times> 'v) list" where
  "mapSet k v [] = [(k, v)]"
| "mapSet k v ((k', v') # kvs) = (if k' = k then (k, v) # kvs else (k', v') # mapSet k v kvs)"

text \<open>\<open>Map.prototype.delete\<close>.\<close>

fun mapDelete :: "'k \<Rightarrow> ('k \<times> 'v) list \<Rightarrow> ('k \<times> 'v) list" where
  "mapDelete k [] = []"
| "mapDelete k ((k', v') # kvs) = (if k' = k then kvs else (k', v') # mapDelete k kvs)"

section \<open>Viewport\<close>

definition updateViewport :: "client \<Rightarrow> client" where
  "updateViewport s =
     (case myPlayer s of
        None \<Rightarrow> s
      | Some p \<Rightarrow>
          let centerX = p_x p;
              centerY = p_y p;
              viewportX = centerX - v_width (viewport s) / 2;
              viewportY = centerY - v_height (viewport s) / 2;
              viewportX' = max 0 (min viewportX (worldWidth - v_width (viewport s)));
              viewportY' = max 0 (min viewportY (worldHeight - v_height (viewport s)))
          in s\<lparr>viewport := (viewport s)\<lparr>v_x := viewportX', v_y := viewportY'\<rparr>\<rparr>)"

text \<open>The \<open>resize\<close> listener of \<open>setupCanvas\<close>, given the new window size.\<close>

definition onresize :: "real \<Rightarrow> real \<Rightarrow> client \<Rightarrow> client" where
  "onresize innerWidth innerHeight s =
     updateViewport (s\<lparr>viewport := (viewport s)\<lparr>v_width := innerWidth, v_height := innerHeight\<rparr>\<rparr>)"

section \<open>Companions\<close>

definition updateInterval :: int where
  "updateInterval = 100"

definition moveSpeed :: real where
  "moveSpeed = 2"

text \<open>The body of the loop of \<open>updateNPCs\<close>, for one companion; \<open>now\<close> is \<open>Date.now()\<close>
  and \<open>M\<close> the \<open>Math\<close> of the browser. \<open>x1\<close> and \<open>y1\<close> are \<open>npc.x\<close> and \<open>npc.y\<close>
  before the clamp.\<close>

definition updateNPC :: "mathLib \<Rightarrow> player \<Rightarrow> int \<Rightarrow> npc \<Rightarrow> npc" where
  "updateNPC M p now n =
     (if now - lastUpdate n < updateInterval then n
      else
        let dx = sub64 (p_x p) (n_x n);
            dy = sub64 (p_y p) (n_y n);
            distance = distance64 dx dy;
            (x1, y1, n1) =
              (if gt64 distance (Finite (followDistance n))
               then
                 let angle = Math_atan2 M dy dx
                 in (add64 (n_x n) (mul64 (Math_cos M angle) moveSpeed),
                     add64 (n_y n) (mul64 (Math_sin M angle) moveSpeed),
                     n\<lparr>facing := (if gt64 (abs64 dx) (abs64 dy)
                                   then (if gt64 dx (Finite 0) then East else West)
                                   else (if gt64 dy (Finite 0) then South else North)),
                        isMoving := True,
                        animationFrame := (animationFrame n + 1) mod 3\<rparr>)
               else (Finite (n_x n), Finite (n_y n), n\<lparr>isMoving := False, animationFrame := 0\<rparr>))
        in n1\<lparr>n_x := clamp64 x1 worldWidth,
               n_y := clamp64 y1 worldHeight,
               lastUpdate := now\<rparr>)"

definition updateNPCs :: "mathLib \<Rightarrow> int \<Rightarrow> client \<Rightarrow> client" where
  "updateNPCs M now s =
     (case myPlayer s of
        None \<Rightarrow> s
      | Some p \<Rightarrow>
          if length (npcs s) = 0 then s
          else s\<lparr>npcs := map (\<lambda>(npcId, n). (npcId, updateNPC M p now n)) (npcs s)\<rparr>)"

text \<open>The three constants the loop body computes first (\<open>dx\<close>, \<open>dy\<close>, \<open>distance\<close>, in
  binary64), its test \<open>distance > npc.followDistance\<close>, and \<open>npc.x\<close> and \<open>npc.y\<close> as they
  are when the loop body reaches the clamp.\<close>

definition dxTo :: "player \<Rightarrow> npc \<Rightarrow> number" where
  "dxTo p n = sub64 (p_x p) (n_x n)"

definition dyTo :: "player \<Rightarrow> npc \<Rightarrow> number" where
  "dyTo p n = sub64 (p_y p) (n_y n)"

definition distanceTo :: "player \<Rightarrow> npc \<Rightarrow> number" where
  "distanceTo p n = distance64 (dxTo p n) (dyTo p n)"

definition tooFar :: "player \<Rightarrow> npc \<Rightarrow> bool" where
  "tooFar p n = gt64 (distanceTo p n) (Finite (followDistance n))"

definition xBeforeClamp :: "mathLib \<Rightarrow> player \<Rightarrow> npc \<Rightarrow> number" where
  "xBeforeClamp M p n =
     (if tooFar p n
      then add64 (n_x n) (mul64 (Math_cos M (Math_atan2 M (dyTo p n) (dxTo p n))) moveSpeed)
      else Finite (n_x n))"

definition yBeforeClamp :: "mathLib \<Rightarrow> player \<Rightarrow> npc \<Rightarrow> number" where
  "yBeforeClamp M p n =
     (if tooFar p n
      then add64 (n_y n) (mul64 (Math_sin M (Math_atan2 M (dyTo p n) (dxTo p n))) moveSpeed)
      else Finite (n_y n))"

text \<open>The exact length of a vector, and the exact Euclidean distance between the
  positions of a companion and a player.\<close>

definition vectorLength :: "real \<Rightarrow> real \<Rightarrow> real" where
  "vectorLength a b = sqrt (a * a + b * b)"

definition euclideanDistance :: "player \<Rightarrow> npc \<Rightarrow> real" where
  "euclideanDistance p n = vectorLength (p_x p - n_x n) (p_y p - n_y n)"

text \<open>\<open>createNPCAvatars\<close>: a coloured square per avatar type, the same image for every
  direction and frame.\<close>

definition npcAvatar :: "string \<Rightarrow> string \<Rightarrow> avatar" where
  "npcAvatar avatarName color =
     \<lparr>a_name = avatarName, a_frames = None,
      a_images = Some [(''north'', [color, color, color]), (''south'', [color, color, color]),
                       (''east'', [color, color, color]), (''west'', [color, color, color])]\<rparr>"

definition createNPCAvatars :: "client \<Rightarrow> client" where
  "createNPCAvatars s =
     s\<lparr>npcAvatars :=
          fold (\<lambda>(avatarName, color). mapSet avatarName (npcAvatar avatarName color))
            [(''guardian'', ''#FF6B6B''), (''companion'', ''#4ECDC4''), (''pet'', ''#45B7D1'')]
            (npcAvatars s)\<rparr>"

definition newNPC :: "string \<Rightarrow> string \<Rightarrow> real \<Rightarrow> real \<Rightarrow> string \<Rightarrow> real \<Rightarrow> int \<Rightarrow> npc" where
  "newNPC i nm x y av fd now =
     \<lparr>n_id = i, n_name = nm, n_x = x, n_y = y, n_avatar = av, followDistance = fd,
      facing = South, isMoving = False, animationFrame = 0, lastUpdate = now\<rparr>"

text \<open>\<open>createNPCs\<close>. The offsets of \<open>50\<close> are added in binary64; such a sum of a finite
  position neither overflows nor is subnormal, so \<open>fl\<close> rounds it as binary64 does.\<close>

definition createNPCs :: "int \<Rightarrow> client \<Rightarrow> client" where
  "createNPCs now s =
     (case myPlayer s of
        None \<Rightarrow> s
      | Some p \<Rightarrow>
          let npcData =
                [newNPC ''npc1'' ''Guardian'' (fl (p_x p - 50)) (fl (p_y p - 50)) ''guardian'' 100 now,
                 newNPC ''npc2'' ''Companion'' (fl (p_x p + 50)) (fl (p_y p - 50)) ''companion'' 150 now,
                 newNPC ''npc3'' ''Pet'' (p_x p) (fl (p_y p + 50)) ''pet'' 80 now];
              s1 = createNPCAvatars s
          in s1\<lparr>npcs := fold (\<lambda>n. mapSet (n_id n) n) npcData (npcs s1)\<rparr>)"

section \<open>Session: connection and reconnection\<close>

text \<open>The constructor sets \<open>this.maxReconnectAttempts = 5\<close>; nothing assigns it again.\<close>

definition maxReconnectAttempts :: nat where
  "maxReconnectAttempts = 5"

definition attemptReconnect :: "client \<Rightarrow> client" where
  "attemptReconnect s =
     (if reconnectAttempts s < maxReconnectAttempts
      then
        let s1 = s\<lparr>reconnectAttempts := reconnectAttempts s + 1\<rparr>;
            delay = 2000 * reconnectAttempts s1
        in s1\<lparr>timers := timers s1 @ [delay], scheduled := scheduled s1 @ [delay]\<rparr>
      else s)"

text \<open>\<open>connectToServer\<close>; \<open>throws\<close> tells whether \<open>new WebSocket(...)\<close> throws, which
  the \<open>catch\<close> answers with \<open>attemptReconnect\<close>.\<close>

definition connectToServer :: "bool \<Rightarrow> client \<Rightarrow> client" where
  "connectToServer throws s =
     (if throws then attemptReconnect s else s\<lparr>ws := Some CONNECTING\<rparr>)"

definition joinGame :: "client \<Rightarrow> client" where
  "joinGame s = s\<lparr>sent := sent s @ [JoinGame ''Crystal'']\<rparr>"

definition onopen :: "client \<Rightarrow> client" where
  "onopen s = joinGame (s\<lparr>reconnectAttempts := 0\<rparr>)"

definition onclose :: "client \<Rightarrow> client" where
  "onclose s = attemptReconnect s"

text \<open>
  The events the browser delivers to the session: the socket opens, the socket closes, a
  reconnection timer fires (and the constructor of the new socket throws or not). An
  event is possible only in some states: a socket opens once, while it is connecting; it
  closes once, while it is connecting or open; a timer fires only when one is pending.
  \<open>step\<close> is \<open>None\<close> on an event that cannot happen in the state. The browser has set the
  socket's ready state when it calls the handler.
\<close>

datatype event = Open | Close | TimerFires bool

fun step :: "event \<Rightarrow> client \<Rightarrow> client option" where
  "step Open s =
     (if ws s = Some CONNECTING then Some (onopen (s\<lparr>ws := Some OPEN\<rparr>)) else None)"
| "step Close s =
     (if ws s = Some CONNECTING \<or> ws s = Some OPEN
      then Some (onclose (s\<lparr>ws := Some CLOSED\<rparr>)) else None)"
| "step (TimerFires throws) s =
     (case timers s of
        [] \<Rightarrow> None
      | d # ds \<Rightarrow> Some (connectToServer throws (s\<lparr>timers := ds\<rparr>)))"

fun run :: "event list \<Rightarrow> client \<Rightarrow> client option" where
  "run [] s = Some s"
| "run (e # es) s = (case step e s of None \<Rightarrow> None | Some s' \<Rightarrow> run es s')"

text \<open>The client as the constructor and \<open>init\<close> leave it, for a window of the given size:
  empty stores, no player, the first socket connecting.\<close>

definition newClient :: "real \<Rightarrow> real \<Rightarrow> client" where
  "newClient innerWidth innerHeight =
     connectToServer False
       \<lparr>players = [], avatars = [], myPlayerId = None, myPlayer = None, npcs = [],
        npcAvatars = [],
        viewport = \<lparr>v_x = 0, v_y = 0, v_width = innerWidth, v_height = innerHeight\<rparr>,
        ws = None, reconnectAttempts = 0, timers = [], scheduled = [], sent = []\<rparr>"

text \<open>A transport failure is an event that ends in \<open>attemptReconnect\<close>: a socket closes, or
  the constructor of a new socket throws.\<close>

fun isFailure :: "event \<Rightarrow> bool" where
  "isFailure Open = False"
| "isFailure Close = True"
| "isFailure (TimerFires throws) = throws"

text \<open>The number of transport failures of a trace since its last \<open>Open\<close>.\<close>

definition failuresSinceOpen :: "event list \<Rightarrow> nat" where
  "failuresSinceOpen es = length (filter isFailure (takeWhile (\<lambda>e. e \<noteq> Open) (rev es)))"

text \<open>Six consecutive failures of a connected session: the socket closes, and five times
  a timer fires and the new socket closes without having opened.\<close>

definition sixFailures :: "event list" where
  "sixFailures =
     [Close, TimerFires False, Close, TimerFires False, Close, TimerFires False, Close,
      TimerFires False, Close, TimerFires False, Close]"

section \<open>Inbound messages\<close>

text \<open>
  A parsed message, with the fields the handlers read. \<open>None\<close> is a field that is missing
  (\<open>undefined\<close>); \<open>m_action\<close> is \<open>None\<close> also when the discriminator is not a string, and
  \<open>m_success\<close> is the truthiness of \<open>message.success\<close>. \<open>m_players\<close> and
  \<open>m_avatars\<close> are listed as \<open>Object.entries\<close> lists them.
\<close>

record message =
  m_action :: "string option"
  m_success :: bool
  m_playerId :: "string option"
  m_players :: "(string \<times> player) list option"
  m_avatars :: "(string \<times> avatar) list option"
  m_player :: "player option"
  m_avatar :: "avatar option"
  m_error :: "string option"

datatype error = TypeError string

text \<open>A handler returns the client, or throws: the exception with the client as the
  handler had left it.\<close>

type_synonym outcome = "error \<times> client + client"

text \<open>\<open>loadAvatarImages\<close>, over the avatars in the order of the \<open>Map\<close>. An avatar without
  \<open>images\<close> gets \<open>images = {}\<close> first, then one entry per direction of \<open>frames\<close>.\<close>

fun loadAvatarImages ::
  "(string \<times> avatar) list \<Rightarrow> error \<times> (string \<times> avatar) list + (string \<times> avatar) list" where
  "loadAvatarImages [] = Inr []"
| "loadAvatarImages ((avatarName, avatarData) # rest) =
     (case a_images avatarData of
        Some _ \<Rightarrow>
          (case loadAvatarImages rest of
             Inl (e, rest') \<Rightarrow> Inl (e, (avatarName, avatarData) # rest')
           | Inr rest' \<Rightarrow> Inr ((avatarName, avatarData) # rest'))
      | None \<Rightarrow>
          (case a_frames avatarData of
             None \<Rightarrow>
               Inl (TypeError ''Object.entries(avatarData.frames)'',
                    (avatarName, avatarData\<lparr>a_images := Some []\<rparr>) # rest)
           | Some frames \<Rightarrow>
               (case loadAvatarImages rest of
                  Inl (e, rest') \<Rightarrow>
                    Inl (e, (avatarName, avatarData\<lparr>a_images := Some frames\<rparr>) # rest')
                | Inr rest' \<Rightarrow>
                    Inr ((avatarName, avatarData\<lparr>a_images := Some frames\<rparr>) # rest'))))"

text \<open>The first loop of \<open>handleJoinGameSuccess\<close>.\<close>

fun storeJoined :: "(string \<times> player) list \<Rightarrow> client \<Rightarrow> client" where
  "storeJoined [] s = s"
| "storeJoined ((playerId, playerData) # rest) s =
     storeJoined rest
       (let s1 = s\<lparr>players := mapSet playerId playerData (players s)\<rparr>
        in if Some playerId = myPlayerId s1 then s1\<lparr>myPlayer := Some playerData\<rparr> else s1)"

text \<open>The loop of \<open>handlePlayersMoved\<close>.\<close>

fun storeMoved :: "(string \<times> player) list \<Rightarrow> client \<Rightarrow> client" where
  "storeMoved [] s = s"
| "storeMoved ((playerId, playerData) # rest) s =
     storeMoved rest
       (let s1 = s\<lparr>players := mapSet playerId playerData (players s)\<rparr>
        in if Some playerId = myPlayerId s1
           then updateViewport (s1\<lparr>myPlayer := Some playerData\<rparr>) else s1)"

definition handleJoinGameSuccess :: "int \<Rightarrow> client \<Rightarrow> message \<Rightarrow> outcome" where
  "handleJoinGameSuccess now s m =
     (let s1 = s\<lparr>myPlayerId := m_playerId m\<rparr> in
      (case m_players m of
         None \<Rightarrow> Inl (TypeError ''Object.entries(message.players)'', s1)
       | Some ps \<Rightarrow>
           (let s2 = storeJoined ps s1 in
            (case m_avatars m of
               None \<Rightarrow> Inl (TypeError ''Object.entries(message.avatars)'', s2)
             | Some avs \<Rightarrow>
                 (let s3 = s2\<lparr>avatars :=
                                 fold (\<lambda>(avatarName, avatarData). mapSet avatarName avatarData)
                                   avs (avatars s2)\<rparr> in
                  (case loadAvatarImages (avatars s3) of
                     Inl (e, avs') \<Rightarrow> Inl (e, s3\<lparr>avatars := avs'\<rparr>)
                   | Inr avs' \<Rightarrow>
                       (let s4 = updateViewport (createNPCs now (s3\<lparr>avatars := avs'\<rparr>)) in
                        (case myPlayer s4 of
                           None \<Rightarrow> Inl (TypeError ''this.myPlayer.username'', s4)
                         | Some _ \<Rightarrow> Inr s4))))))))"

definition handlePlayerJoined :: "client \<Rightarrow> message \<Rightarrow> outcome" where
  "handlePlayerJoined s m =
     (case m_player m of
        None \<Rightarrow> Inl (TypeError ''message.player.id'', s)
      | Some pl \<Rightarrow>
          (let s1 = s\<lparr>players := mapSet (p_id pl) pl (players s)\<rparr> in
           (case m_avatar m of
              None \<Rightarrow> Inl (TypeError ''message.avatar.name'', s1)
            | Some av \<Rightarrow>
                (let s2 = s1\<lparr>avatars := mapSet (a_name av) av (avatars s1)\<rparr> in
                 (case loadAvatarImages (avatars s2) of
                    Inl (e, avs') \<Rightarrow> Inl (e, s2\<lparr>avatars := avs'\<rparr>)
                  | Inr avs' \<Rightarrow> Inr (s2\<lparr>avatars := avs'\<rparr>))))))"

definition handlePlayersMoved :: "client \<Rightarrow> message \<Rightarrow> outcome" where
  "handlePlayersMoved s m =
     (case m_players m of
        None \<Rightarrow> Inl (TypeError ''Object.entries(message.players)'', s)
      | Some ps \<Rightarrow> Inr (storeMoved ps s))"

definition handlePlayerLeft :: "client \<Rightarrow> message \<Rightarrow> outcome" where
  "handlePlayerLeft s m =
     (case m_playerId m of
        None \<Rightarrow> Inr s
      | Some playerId \<Rightarrow> Inr (s\<lparr>players := mapDelete playerId (players s)\<rparr>))"

definition handleServerMessage :: "int \<Rightarrow> client \<Rightarrow> message \<Rightarrow> outcome" where
  "handleServerMessage now s m =
     (if m_action m = Some ''join_game''
      then (if m_success m then handleJoinGameSuccess now s m else Inr s)
      else if m_action m = Some ''player_joined'' then handlePlayerJoined s m
      else if m_action m = Some ''players_moved'' then handlePlayersMoved s m
      else if m_action m = Some ''player_left'' then handlePlayerLeft s m
      else Inr s)"

text \<open>\<open>ws.onmessage\<close>: \<open>None\<close> is a payload that \<open>JSON.parse\<close> rejects. Whatever is thrown
  is caught and logged; the client stays as the handler left it.\<close>

definition onmessage :: "int \<Rightarrow> client \<Rightarrow> message option \<Rightarrow> client" where
  "onmessage now s d =
     (case d of
        None \<Rightarrow> s
      | Some m \<Rightarrow> (case handleServerMessage now s m of Inl (e, s') \<Rightarrow> s' | Inr s' \<Rightarrow> s'))"

section \<open>Predicates used in the properties\<close>

text \<open>An axis of the viewport origin is in range: within \<open>[0, worldSize - viewportSize]\<close>,
  or \<open>0\<close> when the world is smaller than the viewport on that axis.\<close>

definition axisInRange :: "real \<Rightarrow> real \<Rightarrow> real \<Rightarrow> bool" where
  "axisInRange worldSize viewportSize origin =
     (if worldSize < viewportSize then origin = 0
      else 0 \<le> origin \<and> origin \<le> worldSize - viewportSize)"

definition viewportInRange :: "client \<Rightarrow> bool" where
  "viewportInRange s =
     (axisInRange worldWidth (v_width (viewport s)) (v_x (viewport s)) \<and>
      axisInRange worldHeight (v_height (viewport s)) (v_y (viewport s)))"

text \<open>As long as there is no local player, the viewport origin is the constructor's
  \<open>(0, 0)\<close>: only \<open>updateViewport\<close> writes it, and only for a local player.\<close>

definition originUntouched :: "client \<Rightarrow> bool" where
  "originUntouched s =
     (myPlayer s \<noteq> None \<or> (v_x (viewport s) = 0 \<and> v_y (viewport s) = 0))"

text \<open>An avatar that \<open>loadAvatarImages\<close> can handle: it has its images, or frames to
  derive them from.\<close>

definition loadable :: "avatar \<Rightarrow> bool" where
  "loadable a = (a_images a \<noteq> None \<or> a_frames a \<noteq> None)"

definition inWorld :: "real \<Rightarrow> real \<Rightarrow> bool" where
  "inWorld x y = (0 \<le> x \<and> x \<le> worldWidth \<and> 0 \<le> y \<and> y \<le> worldHeight)"

text \<open>The \<open>Math\<close> of the browser is accurate at \<open>(dy, dx)\<close>: the cosine and the sine of
  \<open>Math.atan2(dy, dx)\<close> are within \<open>1/4\<close> of the components of the unit vector along
  \<open>(dx, dy)\<close>. (Implementations are accurate to about \<open>1e-16\<close>.)\<close>

definition accurateAt :: "mathLib \<Rightarrow> number \<Rightarrow> number \<Rightarrow> bool" where
  "accurateAt M dy dx =
     (case (dx, dy) of
        (Finite x, Finite y) \<Rightarrow>
          \<bar>Math_cos M (Math_atan2 M dy dx) - x / vectorLength x y\<bar> \<le> 1 / 4 \<and>
          \<bar>Math_sin M (Math_atan2 M dy dx) - y / vectorLength x y\<bar> \<le> 1 / 4
      | _ \<Rightarrow> False)"

text \<open>Invariants of the reachable clients: of the viewport, of the session (at most one
  timer is pending, none while a socket is alive, and an open socket means a counter at
  \<open>0\<close>) and of the companions (a follow distance of at least \<open>80\<close>).\<close>

definition viewportInvariant :: "client \<Rightarrow> bool" where
  "viewportInvariant s = (originUntouched s \<and> viewportInRange s)"

definition sessionInvariant :: "client \<Rightarrow> bool" where
  "sessionInvariant s =
     (length (timers s) \<le> 1 \<and> reconnectAttempts s \<le> maxReconnectAttempts \<and>
      (ws s = Some CONNECTING \<or> ws s = Some OPEN \<longrightarrow> timers s = []) \<and>
      (ws s = Some OPEN \<longrightarrow> reconnectAttempts s = 0))"

definition companionsInvariant :: "client \<Rightarrow> bool" where
  "companionsInvariant s = list_all (\<lambda>n. 80 \<le> followDistance n) (map snd (npcs s))"

section \<open>Reachable clients\<close>

text \<open>
  The clients that the events of the page can produce from a new client: a resize of the
  window, an inbound payload, a frame of the game loop (\<open>updateNPCs\<close>; drawing changes
  nothing of the client) with whatever \<open>Math\<close> the browser has, and the events of the
  session. The key handlers only send messages and are left out.
\<close>

inductive reachable :: "client \<Rightarrow> bool" where
  reachable_new: "reachable (newClient innerWidth innerHeight)"
| reachable_resize: "reachable s \<Longrightarrow> reachable (onresize innerWidth innerHeight s)"
| reachable_message: "reachable s \<Longrightarrow> reachable (onmessage now s d)"
| reachable_frame: "reachable s \<Longrightarrow> reachable (updateNPCs M now s)"
| reachable_step: "reachable s \<Longrightarrow> step e s = Some s' \<Longrightarrow> reachable s'"

section \<open>Example values\<close>

text \<open>A player object at a position, and a message that has only its discriminator.\<close>

definition playerAt :: "string \<Rightarrow> real \<Rightarrow> real \<Rightarrow> player" where
  "playerAt i x y =
     \<lparr>p_id = i, p_username = ''Crystal'', p_x = x, p_y = y, p_facing = ''south'',
      p_animationFrame = 0, p_avatar = ''default''\<rparr>"

definition messageWithAction :: "string \<Rightarrow> message" where
  "messageWithAction a =
     \<lparr>m_action = Some a, m_success = False, m_playerId = None, m_players = None,
      m_avatars = None, m_player = None, m_avatar = None, m_error = None\<rparr>"

section \<open>Rounding to binary64\<close>

lemma floor_log2_eq:
  assumes "2 powi e \<le> \<bar>r\<bar>" and "\<bar>r\<bar> < 2 powi (e + 1)"
  shows "\<lfloor>log 2 \<bar>r\<bar>\<rfloor> = e"
proof -
  have "0 < (2::real) powi e"
    by simp
  then have pos: "0 < \<bar>r\<bar>"
    using assms(1) by linarith
  have "2 powr (of_int e) \<le> \<bar>r\<bar>"
    using assms(1) by (simp add: powr_real_of_int')
  then have a: "of_int e \<le> log 2 \<bar>r\<bar>"
    using pos by (simp add: le_log_iff)
  have "(2::real) powr (of_int (e + 1)) = 2 powi (e + 1)"
    using powr_real_of_int' [of "2::real" "e + 1"] by simp
  then have "\<bar>r\<bar> < 2 powr (of_int (e + 1))"
    using assms(2) by simp
  then have b: "log 2 \<bar>r\<bar> < of_int (e + 1)"
    using pos by (simp add: log_less_iff)
  show ?thesis
    using a b by (simp add: floor_unique)
qed

lemma fl_eval:
  assumes "2 powi e \<le> \<bar>r\<bar>" and "\<bar>r\<bar> < 2 powi (e + 1)"
  shows "fl r = of_int (roundTiesToEven (r / 2 powi (e - 52))) * 2 powi (e - 52)"
proof -
  have "0 < (2::real) powi e"
    by simp
  then have "0 < \<bar>r\<bar>"
    using assms(1) by linarith
  then have "r \<noteq> 0"
    by simp
  then show ?thesis
    by (simp add: fl_def Let_def floor_log2_eq [OF assms])
qed

text \<open>For a number below \<open>2 ^ 53\<close>: scale it into \<open>[2 ^ 52, 2 ^ 53)\<close>, round to an integer,
  scale back.\<close>

lemma fl_scaled:
  assumes "2 ^ 52 \<le> \<bar>r\<bar> * 2 ^ k" and "\<bar>r\<bar> * 2 ^ k < 2 ^ 53"
  shows "fl r = of_int (roundTiesToEven (r * 2 ^ k)) / 2 ^ k"
proof -
  have p: "(2::real) powi (52 - int k) = 2 ^ 52 / 2 ^ k"
    by (simp add: power_int_diff)
  have q: "(2::real) powi (52 - int k + 1) = 2 ^ 53 / 2 ^ k"
    by (simp add: power_int_diff power_int_add)
  have a: "2 powi (52 - int k) \<le> \<bar>r\<bar>"
    unfolding p using assms(1) by (simp add: field_simps)
  have b: "\<bar>r\<bar> < 2 powi (52 - int k + 1)"
    unfolding q using assms(2) by (simp add: field_simps)
  have "(2::real) powi (52 - int k - 52) = 1 / 2 ^ k"
    by (simp add: power_int_minus field_simps)
  then show ?thesis
    using fl_eval [OF a b] by simp
qed

text \<open>\<open>0.1 - 1024\<close> and \<open>(0.1 - 1024) + 1024\<close> in binary64, \<open>0.1\<close> being the double
  \<open>3602879701896397 / 2 ^ 55\<close>.\<close>

lemma double_sub_example:
  "Double (3602879701896397 / 36028797018963968) - Double 1024
   = Double (- (9006319645438771 / 8796093022208))"
  by (simp only: minus_double_def double.sel, subst fl_scaled [where k = 43])
    (simp_all add: roundTiesToEven_def)

lemma double_add_example:
  "Double (- (9006319645438771 / 8796093022208)) + Double 1024
   = Double (879609302221 / 8796093022208)"
  by (simp only: plus_double_def double.sel, subst fl_scaled [where k = 56])
    (simp_all add: roundTiesToEven_def)

lemma fl_1000: "fl 1000 = 1000"
  by (subst fl_scaled [where k = 43]) (simp_all add: roundTiesToEven_def)

lemma fl_976: "fl 976 = 976"
  by (subst fl_scaled [where k = 43]) (simp_all add: roundTiesToEven_def)

lemma fl_375_5: "fl (751 / 2) = 751 / 2"
  by (subst fl_scaled [where k = 44]) (simp_all add: roundTiesToEven_def)

lemma roundTiesToEven_of_int [simp]: "roundTiesToEven (of_int z) = z"
  by (simp add: roundTiesToEven_def)

lemma floor_log2_bounds:
  assumes "r \<noteq> 0"
  shows "2 powi \<lfloor>log 2 \<bar>r\<bar>\<rfloor> \<le> \<bar>r\<bar>" and "\<bar>r\<bar> < 2 powi (\<lfloor>log 2 \<bar>r\<bar>\<rfloor> + 1)"
proof -
  have pos: "0 < \<bar>r\<bar>"
    using assms by simp
  have "2 powr (of_int \<lfloor>log 2 \<bar>r\<bar>\<rfloor>) \<le> 2 powr (log 2 \<bar>r\<bar>)"
    by (intro powr_mono) simp_all
  also have "\<dots> = \<bar>r\<bar>"
    using pos by simp
  finally show "2 powi \<lfloor>log 2 \<bar>r\<bar>\<rfloor> \<le> \<bar>r\<bar>"
    by (simp add: powr_real_of_int')
  have "\<bar>r\<bar> = 2 powr (log 2 \<bar>r\<bar>)"
    using pos by simp
  also have "\<dots> < 2 powr (of_int (\<lfloor>log 2 \<bar>r\<bar>\<rfloor> + 1))"
    by (intro powr_less_mono) simp_all
  also have "\<dots> = 2 powi (\<lfloor>log 2 \<bar>r\<bar>\<rfloor> + 1)"
    using powr_real_of_int' [of "2::real" "\<lfloor>log 2 \<bar>r\<bar>\<rfloor> + 1"] by simp
  finally show "\<bar>r\<bar> < 2 powi (\<lfloor>log 2 \<bar>r\<bar>\<rfloor> + 1)" .
qed

text \<open>A dyadic rational with a significand below \<open>2 ^ 53\<close> is a fixed point of \<open>fl\<close>:
  every integer and every half-integer of the size of a world coordinate is.\<close>

lemma fl_dyadic:
  assumes "\<bar>m\<bar> < 2 ^ 53"
  shows "fl (of_int m / 2 ^ j) = of_int m / 2 ^ j"
proof (cases "m = 0")
  case True
  then show ?thesis
    by (simp add: fl_def)
next
  case False
  define r :: real where "r = of_int m / 2 ^ j"
  define e where "e = \<lfloor>log 2 \<bar>r\<bar>\<rfloor>"
  have r0: "r \<noteq> 0"
    using False by (simp add: r_def)
  have lo: "2 powi e \<le> \<bar>r\<bar>" and hi: "\<bar>r\<bar> < 2 powi (e + 1)"
    using floor_log2_bounds [OF r0] by (simp_all add: e_def)
  have "\<bar>real_of_int m\<bar> < 2 ^ 53"
    using assms by (metis of_int_abs of_int_less_numeral_power_cancel_iff)
  then have "\<bar>r\<bar> < 2 ^ 53 / 2 ^ j"
    by (simp add: r_def abs_divide divide_strict_right_mono)
  also have "\<dots> = 2 powi (53 - int j)"
    by (simp add: power_int_diff)
  finally have "2 powi e < (2::real) powi (53 - int j)"
    using lo by linarith
  then have "e < 53 - int j"
    by (metis not_less power_int_increasing one_le_numeral)
  define k where "k = nat (52 - int j - e)"
  have k: "int k = 52 - int j - e"
    using \<open>e < 53 - int j\<close> by (simp add: k_def)
  have s: "(2::real) powi (e - 52) = 1 / (2 ^ j * 2 ^ k)"
  proof -
    have "e - 52 = - int (j + k)"
      using k by simp
    then show ?thesis
      by (simp only: power_int_minus power_int_of_nat power_add) (simp add: field_simps)
  qed
  have q: "r / 2 powi (e - 52) = of_int (m * 2 ^ k)"
    by (simp add: s r_def)
  have "fl r = of_int (roundTiesToEven (r / 2 powi (e - 52))) * 2 powi (e - 52)"
    by (rule fl_eval [OF lo hi])
  also have "\<dots> = of_int (m * 2 ^ k) * 2 powi (e - 52)"
    by (simp only: q roundTiesToEven_of_int)
  also have "\<dots> = of_int (m * 2 ^ k) * (1 / (2 ^ j * 2 ^ k))"
    by (simp only: s)
  also have "\<dots> = r"
    by (simp add: r_def)
  finally show ?thesis
    by (simp add: r_def)
qed

lemma fl_of_int: "\<bar>m\<bar> < 2 ^ 53 \<Longrightarrow> fl (of_int m) = of_int m"
  using fl_dyadic [of m 0] by simp

text \<open>The double nearest to \<open>0.1\<close> is \<open>3602879701896397 / 2 ^ 55\<close>, a binary64 value.\<close>

lemma tenth_is_double:
  "fl (3602879701896397 / 36028797018963968) = 3602879701896397 / 36028797018963968"
  using fl_dyadic [of 3602879701896397 55] by simp

subsection \<open>Rounding with the exponent range of binary64\<close>

lemma roundTiesToEven_error: "\<bar>of_int (roundTiesToEven y) - y\<bar> \<le> 1 / 2"
  unfolding roundTiesToEven_def Let_def by (auto simp: abs_if) linarith+

lemma roundTiesToEven_near:
  assumes "of_int m - 1 / 2 < y" and "y < of_int m + 1 / 2"
  shows "roundTiesToEven y = m"
proof -
  have "\<bar>of_int (roundTiesToEven y) - y\<bar> \<le> 1 / 2"
    by (rule roundTiesToEven_error)
  then have "\<bar>real_of_int (roundTiesToEven y - m)\<bar> < 1"
    using assms by (simp add: abs_if split: if_splits)
  then have "\<bar>roundTiesToEven y - m\<bar> < 1"
    by (metis of_int_abs of_int_less_1_iff)
  then show ?thesis
    by simp
qed

lemma minNormal_pos: "0 < minNormal"
  by (simp add: minNormal_def)

lemma minNormal_le_one: "minNormal \<le> 1"
  unfolding minNormal_def using power_int_increasing [of "- 1022" 0 "2::real"] by simp



lemma overflowThreshold_large: "2 ^ 60 \<le> overflowThreshold"
  unfolding overflowThreshold_def using power_int_increasing [of 60 1024 "2::real"] by simp

text \<open>The error of \<open>fl\<close>: at most half a unit in the last place.\<close>

lemma fl_error:
  assumes "r \<noteq> 0"
  shows "\<bar>fl r - r\<bar> \<le> 2 powi (\<lfloor>log 2 \<bar>r\<bar>\<rfloor> - 53)"
proof -
  define e where "e = \<lfloor>log 2 \<bar>r\<bar>\<rfloor>"
  define s :: real where "s = 2 powi (e - 52)"
  have s: "0 < s"
    by (simp add: s_def)
  have "fl r = of_int (roundTiesToEven (r / s)) * s"
    using assms by (simp add: fl_def Let_def s_def e_def)
  then have "fl r - r = (of_int (roundTiesToEven (r / s)) - r / s) * s"
    using s by (simp add: field_simps)
  then have "\<bar>fl r - r\<bar> = \<bar>of_int (roundTiesToEven (r / s)) - r / s\<bar> * s"
    using s by (simp add: abs_mult)
  also have "\<dots> \<le> (1 / 2) * s"
    using s roundTiesToEven_error [of "r / s"] by (intro mult_right_mono) simp_all
  also have "(1 / 2) * s = 2 powi (e - 53)"
  proof -
    have "(2::real) powi ((e - 53) + 1) = 2 powi (e - 53) * 2 powi 1"
      by (rule power_int_add) simp
    then have "s = 2 powi (e - 53) * 2"
      by (simp add: s_def)
    then show ?thesis
      by simp
  qed
  finally show ?thesis
    by (simp add: e_def)
qed

lemma fl_error_bounded:
  assumes "\<bar>r\<bar> \<le> 2 ^ k"
  shows "\<bar>fl r - r\<bar> \<le> 2 ^ k / 2 ^ 53"
proof (cases "r = 0")
  case True
  then show ?thesis
    by (simp add: fl_def)
next
  case False
  have "2 powi \<lfloor>log 2 \<bar>r\<bar>\<rfloor> \<le> \<bar>r\<bar>"
    by (rule floor_log2_bounds(1) [OF False])
  then have p: "2 powi \<lfloor>log 2 \<bar>r\<bar>\<rfloor> \<le> (2::real) ^ k"
    using assms by linarith
  have "\<bar>fl r - r\<bar> \<le> 2 powi (\<lfloor>log 2 \<bar>r\<bar>\<rfloor> - 53)"
    by (rule fl_error [OF False])
  also have "\<dots> = 2 powi \<lfloor>log 2 \<bar>r\<bar>\<rfloor> / 2 ^ 53"
    by (simp add: power_int_diff)
  also have "\<dots> \<le> 2 ^ k / 2 ^ 53"
    using p by (simp add: divide_right_mono)
  finally show ?thesis .
qed


text \<open>A number of at least \<open>1\<close> and below \<open>2 ^ 1023\<close> in size is rounded by \<open>fl\<close>.\<close>

lemma fl_abs_le:
  assumes "\<bar>r\<bar> \<le> 2 ^ k"
  shows "\<bar>fl r\<bar> \<le> 2 ^ k + 2 ^ k / 2 ^ 53"
  using fl_error_bounded [OF assms] assms by (simp add: abs_if split: if_splits)

lemma round64_normal:
  assumes "1 \<le> \<bar>r\<bar>" and "\<bar>r\<bar> \<le> 2 ^ 59"
  shows "round64 r = Finite (fl r)"
proof -
  have "\<bar>fl r\<bar> \<le> 2 ^ 59 + 2 ^ 59 / 2 ^ 53"
    by (rule fl_abs_le [OF assms(2)])
  then have "\<bar>fl r\<bar> < overflowThreshold"
    using overflowThreshold_large by simp
  then show ?thesis
    using assms(1) minNormal_le_one by (simp add: round64_def)
qed

lemma round64_zero [simp]: "round64 0 = Finite 0"
  using minNormal_pos roundTiesToEven_of_int [of 0] by (simp add: round64_def)

text \<open>A dyadic rational with a significand below \<open>2 ^ 53\<close> and a size of at least \<open>1\<close> is a
  binary64 number: \<open>round64\<close> leaves it as it is.\<close>

lemma round64_dyadic:
  assumes "\<bar>m\<bar> < 2 ^ 53" and "2 ^ j \<le> \<bar>m\<bar>"
  shows "round64 (of_int m / 2 ^ j) = Finite (of_int m / 2 ^ j)"
proof -
  have m: "\<bar>real_of_int m\<bar> < 2 ^ 53" and j: "2 ^ j \<le> \<bar>real_of_int m\<bar>"
    using assms by (metis of_int_abs of_int_less_numeral_power_cancel_iff,
        metis of_int_abs numeral_power_le_of_int_cancel_iff)
  have lo: "1 \<le> \<bar>real_of_int m / 2 ^ j\<bar>"
    using j by (simp add: abs_divide)
  have "\<bar>real_of_int m\<bar> * 1 \<le> \<bar>real_of_int m\<bar> * 2 ^ j"
    by (intro mult_left_mono) simp_all
  then have "\<bar>real_of_int m / 2 ^ j\<bar> \<le> \<bar>real_of_int m\<bar>"
    by (simp add: divide_le_eq)
  then have hi: "\<bar>real_of_int m / 2 ^ j\<bar> \<le> 2 ^ 59"
    using m by simp
  show ?thesis
    by (simp only: round64_normal [OF lo hi] fl_dyadic [OF assms(1)])
qed

lemma round64_int:
  assumes "\<bar>m\<bar> < 2 ^ 53"
  shows "round64 (of_int m) = Finite (of_int m)"
proof (cases "m = 0")
  case True
  then show ?thesis by simp
next
  case False
  then have "2 ^ 0 \<le> \<bar>m\<bar>"
    by simp
  from round64_dyadic [OF assms this] show ?thesis
    by simp
qed

text \<open>Evaluation of \<open>round64\<close> on a number of moderate size, after scaling it into
  \<open>[2 ^ 52, 2 ^ 53)\<close>; and of a rounded square root, from the two squares that enclose it.\<close>

lemma round64_scaled:
  assumes "1 \<le> \<bar>r\<bar>" and "2 ^ 52 \<le> \<bar>r\<bar> * 2 ^ k" and "\<bar>r\<bar> * 2 ^ k < 2 ^ 53"
  shows "round64 r = Finite (of_int (roundTiesToEven (r * 2 ^ k)) / 2 ^ k)"
proof -
  have "\<bar>r\<bar> * 1 \<le> \<bar>r\<bar> * 2 ^ k"
    by (intro mult_left_mono) simp_all
  then have "\<bar>r\<bar> \<le> 2 ^ 59"
    using assms(3) by simp
  then show ?thesis
    by (simp only: round64_normal [OF assms(1)] fl_scaled [OF assms(2,3)])
qed

lemma round64_sqrt:
  assumes "2 ^ 52 < m" and "m < 2 ^ 53 - 1" and "k \<le> 52"
    and "(of_int m - 1 / 2)\<^sup>2 < x * 4 ^ k" and "x * 4 ^ k < (of_int m + 1 / 2)\<^sup>2"
  shows "round64 (sqrt x) = Finite (of_int m / 2 ^ k)"
proof -
  have m: "(2::real) ^ 52 < of_int m" "real_of_int m < 2 ^ 53 - 1"
    using assms(1,2) by (simp_all add: of_int_less_iff [symmetric] del: of_int_less_iff)
  have "(2::real) ^ k \<le> 2 ^ 52"
    using assms(3) by (intro power_increasing) simp_all
  moreover have "(2::real) ^ 52 + 1 \<le> of_int m"
  proof -
    have "(2::int) ^ 52 + 1 \<le> m"
      using assms(1) by simp
    then have "real_of_int (2 ^ 52 + 1) \<le> of_int m"
      by (simp only: of_int_le_iff)
    then show ?thesis
      by simp
  qed
  ultimately have mk: "(2::real) ^ k + 1 / 2 < of_int m"
    by linarith
  have x: "0 \<le> x"
  proof (rule ccontr)
    assume "\<not> 0 \<le> x"
    then have "x * 4 ^ k \<le> 0"
      by (simp add: mult_le_0_iff)
    then show False
      using assms(4) zero_le_power2 [of "real_of_int m - 1 / 2"] by linarith
  qed
  have sq: "sqrt (x * 4 ^ k) = sqrt x * 2 ^ k"
  proof -
    have "(4::real) ^ k = (2 ^ k)\<^sup>2"
      by (simp add: power_mult [symmetric] power2_eq_square power_mult_distrib [symmetric])
    then show ?thesis
      by (simp add: real_sqrt_mult)
  qed
  have lo: "of_int m - 1 / 2 < sqrt x * 2 ^ k"
  proof -
    have "sqrt ((of_int m - 1 / 2)\<^sup>2) < sqrt (x * 4 ^ k)"
      using assms(4) by (rule real_sqrt_less_mono)
    moreover have "\<bar>real_of_int m - 1 / 2\<bar> = of_int m - 1 / 2"
      using m(1) by simp
    ultimately show ?thesis
      by (simp add: sq)
  qed
  have hi: "sqrt x * 2 ^ k < of_int m + 1 / 2"
  proof -
    have "sqrt (x * 4 ^ k) < sqrt ((of_int m + 1 / 2)\<^sup>2)"
      using assms(5) by (rule real_sqrt_less_mono)
    moreover have "\<bar>real_of_int m + 1 / 2\<bar> = of_int m + 1 / 2"
      using m(1) by simp
    ultimately show ?thesis
      by (simp add: sq)
  qed
  have pos: "0 \<le> sqrt x"
    using x by simp
  have r: "roundTiesToEven (sqrt x * 2 ^ k) = m"
    by (rule roundTiesToEven_near [OF lo hi])
  have a: "2 ^ 52 \<le> \<bar>sqrt x\<bar> * 2 ^ k"
    using lo m(1) pos by simp
  have b: "\<bar>sqrt x\<bar> * 2 ^ k < 2 ^ 53"
    using hi m(2) pos by simp
  have one: "1 \<le> \<bar>sqrt x\<bar>"
  proof -
    have "(2::real) ^ k * 1 < sqrt x * 2 ^ k"
      using lo mk by linarith
    then have "1 < sqrt x"
      by (simp add: mult.commute)
    then show ?thesis
      by simp
  qed
  show ?thesis
    by (simp only: round64_scaled [OF one a b] r)
qed

text \<open>Numbers that binary64 represents exactly.\<close>

lemma round64_numeral [simp]:
  "(numeral k :: int) < 2 ^ 53 \<Longrightarrow> round64 (numeral k) = Finite (numeral k)"
  using round64_int [of "numeral k"] by simp

lemma round64_neg_numeral [simp]:
  "(numeral k :: int) < 2 ^ 53 \<Longrightarrow> round64 (- numeral k) = Finite (- numeral k)"
  using round64_int [of "- numeral k"] by simp

lemma fl_zero [simp]: "fl 0 = 0"
  by (simp add: fl_def)

lemma fl_one [simp]: "fl 1 = 1"
  using fl_of_int [of 1] by simp

section \<open>Coordinate conversion\<close>

text \<open>In exact arithmetic (any abelian group, the reals among them) the two conversions
  are inverse to each other.\<close>

lemma screenToWorld_worldToScreen_exact_arithmetic:
  fixes v :: "('a::ab_group_add) viewport"
  shows "screenToWorld v (pos_x (worldToScreen v x y)) (pos_y (worldToScreen v x y))
         = \<lparr>pos_x = x, pos_y = y\<rparr>"
  by (simp add: worldToScreen_def screenToWorld_def)

lemma worldToScreen_screenToWorld_exact_arithmetic:
  fixes v :: "('a::ab_group_add) viewport"
  shows "worldToScreen v (pos_x (screenToWorld v x y)) (pos_y (screenToWorld v x y))
         = \<lparr>pos_x = x, pos_y = y\<rparr>"
  by (simp add: worldToScreen_def screenToWorld_def)

text \<open>
  Claim C1, as stated: for every world position \<open>p\<close> and every viewport origin,
  \<open>screenToWorld(worldToScreen(p)) = p\<close> exactly. On doubles this fails: with the viewport
  origin at \<open>(1024, 1024)\<close>, the world position \<open>(0.1, 1000)\<close> comes back as
  \<open>(0.10000000000002274, 1000)\<close>, because \<open>0.1 - 1024\<close> is rounded.
\<close>

theorem C1_roundtrip_counterexample:
  "screenToWorld
     \<lparr>v_x = Double 1024, v_y = Double 1024, v_width = Double 800, v_height = Double 600\<rparr>
     (pos_x (worldToScreen
        \<lparr>v_x = Double 1024, v_y = Double 1024, v_width = Double 800, v_height = Double 600\<rparr>
        (Double (3602879701896397 / 36028797018963968)) (Double 1000)))
     (pos_y (worldToScreen
        \<lparr>v_x = Double 1024, v_y = Double 1024, v_width = Double 800, v_height = Double 600\<rparr>
        (Double (3602879701896397 / 36028797018963968)) (Double 1000)))
   \<noteq> \<lparr>pos_x = Double (3602879701896397 / 36028797018963968), pos_y = Double 1000\<rparr>"
  by (simp add: worldToScreen_def screenToWorld_def double_sub_example double_add_example)

text \<open>
  Claim C1, amended: for every world position \<open>p\<close> (a pair of doubles) and every viewport
  origin such that the subtraction \<open>p - origin\<close> is exact on both axes (no rounding),
  \<open>screenToWorld(worldToScreen(p)) = p\<close>.
\<close>

theorem C1_roundtrip_when_subtraction_exact:
  assumes "fl (dval x) = dval x" and "fl (dval y) = dval y"
    and "fl (dval x - dval (v_x v)) = dval x - dval (v_x v)"
    and "fl (dval y - dval (v_y v)) = dval y - dval (v_y v)"
  shows "screenToWorld v (pos_x (worldToScreen v x y)) (pos_y (worldToScreen v x y))
         = \<lparr>pos_x = x, pos_y = y\<rparr>"
  using assms
  by (simp add: worldToScreen_def screenToWorld_def plus_double_def minus_double_def)

theorem C1_roundtrip_witness:
  "fl 1000 = 1000 \<and> fl (1000 - 1249 / 2) = 1000 - 1249 / 2 \<and> fl (1000 - 24) = 1000 - 24 \<and>
   screenToWorld
     \<lparr>v_x = Double (1249 / 2), v_y = Double 24, v_width = Double 799, v_height = Double 600\<rparr>
     (pos_x (worldToScreen
        \<lparr>v_x = Double (1249 / 2), v_y = Double 24, v_width = Double 799, v_height = Double 600\<rparr>
        (Double 1000) (Double 1000)))
     (pos_y (worldToScreen
        \<lparr>v_x = Double (1249 / 2), v_y = Double 24, v_width = Double 799, v_height = Double 600\<rparr>
        (Double 1000) (Double 1000)))
   = \<lparr>pos_x = Double 1000, pos_y = Double 1000\<rparr>"
  using C1_roundtrip_when_subtraction_exact
    [of "Double 1000" "Double 1000"
      "\<lparr>v_x = Double (1249 / 2), v_y = Double 24, v_width = Double 799, v_height = Double 600\<rparr>"]
  by (simp add: fl_1000 fl_976 fl_375_5)

text \<open>Coordinates that are multiples of \<open>1/2\<close> below \<open>2 ^ 51\<close> in size, as integer player
  positions and the origins \<open>x - width / 2\<close> derived from them are: the conversions are
  exact inverses on them.\<close>

lemma roundtrip_half_integer_coordinates:
  assumes "\<bar>a\<bar> < 2 ^ 51" and "\<bar>b\<bar> < 2 ^ 51" and "\<bar>c\<bar> < 2 ^ 51" and "\<bar>d\<bar> < 2 ^ 51"
    and "v_x v = Double (of_int c / 2)" and "v_y v = Double (of_int d / 2)"
  shows "screenToWorld v
           (pos_x (worldToScreen v (Double (of_int a / 2)) (Double (of_int b / 2))))
           (pos_y (worldToScreen v (Double (of_int a / 2)) (Double (of_int b / 2))))
         = \<lparr>pos_x = Double (of_int a / 2), pos_y = Double (of_int b / 2)\<rparr>"
proof -
  have sub: "fl (of_int p / 2 - of_int q / 2) = of_int p / 2 - of_int q / 2"
    if "\<bar>p\<bar> < 2 ^ 51" and "\<bar>q\<bar> < 2 ^ 51" for p q :: int
  proof -
    have "\<bar>p\<bar> < 2251799813685248" and "\<bar>q\<bar> < 2251799813685248"
      using that by simp_all
    then have "\<bar>p - q\<bar> < 2 ^ 53"
      by simp
    from fl_dyadic [OF this, of 1] show ?thesis
      by (simp add: diff_divide_distrib)
  qed
  have rep: "fl (of_int p / 2) = of_int p / 2" if "\<bar>p\<bar> < 2 ^ 51" for p :: int
  proof -
    have "\<bar>p\<bar> < 2251799813685248"
      using that by simp
    then have "\<bar>p\<bar> < 2 ^ 53"
      by simp
    from fl_dyadic [OF this, of 1] show ?thesis
      by simp
  qed
  show ?thesis
    using assms
    by (simp add: worldToScreen_def screenToWorld_def plus_double_def minus_double_def sub rep)
qed

section \<open>Viewport recentering\<close>

lemma axisInRange_clamp:
  "axisInRange worldSize viewportSize (max 0 (min c (worldSize - viewportSize)))"
  by (auto simp: axisInRange_def max_def min_def)

lemma axisInRange_zero: "axisInRange worldSize viewportSize 0"
  by (simp add: axisInRange_def)

lemma updateViewport_Some:
  "myPlayer s = Some p \<Longrightarrow> viewportInRange (updateViewport s)"
  by (simp add: updateViewport_def viewportInRange_def Let_def axisInRange_clamp)

lemma updateViewport_None: "myPlayer s = None \<Longrightarrow> updateViewport s = s"
  by (simp add: updateViewport_def)

lemma originUntouched_inRange:
  "myPlayer s = None \<Longrightarrow> originUntouched s \<Longrightarrow> viewportInRange s"
  by (simp add: originUntouched_def viewportInRange_def axisInRange_zero)

text \<open>
  Claim C2: after every call of \<open>updateViewport\<close>, each axis of the viewport origin lies
  within \<open>[0, worldSize - viewportSize]\<close>, and is \<open>0\<close> when the world is smaller than the
  viewport on that axis. The call does nothing when there is no local player; the origin
  is then still the constructor's \<open>(0, 0)\<close>, which is what \<open>originUntouched\<close> says and what
  every reachable client satisfies (\<open>reachable_viewport\<close> below).
\<close>

theorem C2_updateViewport_in_range:
  assumes "originUntouched s"
  shows "viewportInRange (updateViewport s)"
proof (cases "myPlayer s")
  case None
  then show ?thesis
    using assms by (simp add: updateViewport_None originUntouched_inRange)
next
  case (Some p)
  then show ?thesis
    by (rule updateViewport_Some)
qed

theorem C2_updateViewport_witness:
  "originUntouched ((newClient 800 600)\<lparr>myPlayer := Some (playerAt ''p1'' 100 100)\<rparr>) \<and>
   viewportInRange (updateViewport ((newClient 800 600)\<lparr>myPlayer := Some (playerAt ''p1'' 100 100)\<rparr>)) \<and>
   originUntouched ((newClient 3000 600)\<lparr>myPlayer := Some (playerAt ''p1'' 2000 2000)\<rparr>) \<and>
   v_x (viewport (updateViewport ((newClient 3000 600)\<lparr>myPlayer := Some (playerAt ''p1'' 2000 2000)\<rparr>))) = 0 \<and>
   v_y (viewport (updateViewport ((newClient 3000 600)\<lparr>myPlayer := Some (playerAt ''p1'' 2000 2000)\<rparr>))) = 1448"
  using C2_updateViewport_in_range
    [of "(newClient 800 600)\<lparr>myPlayer := Some (playerAt ''p1'' 100 100)\<rparr>"]
  by (simp add: originUntouched_def newClient_def connectToServer_def updateViewport_def
      playerAt_def worldWidth_def worldHeight_def Let_def)

section \<open>The companion simulator\<close>

subsection \<open>The fields of a companion after a tick\<close>

text \<open>
  A tick of a companion is a pass of the loop body for a companion whose last update is
  at least \<open>updateInterval\<close> old; a younger companion is skipped, unchanged.
\<close>

lemma updateNPC_skipped: "now - lastUpdate n < updateInterval \<Longrightarrow> updateNPC M p now n = n"
  by (simp add: updateNPC_def)

lemma updateNPC_fields:
  assumes "updateInterval \<le> now - lastUpdate n"
  shows "n_x (updateNPC M p now n) = clamp64 (xBeforeClamp M p n) worldWidth"
    and "n_y (updateNPC M p now n) = clamp64 (yBeforeClamp M p n) worldHeight"
    and "isMoving (updateNPC M p now n) = tooFar p n"
    and "animationFrame (updateNPC M p now n)
         = (if tooFar p n then (animationFrame n + 1) mod 3 else 0)"
    and "facing (updateNPC M p now n)
         = (if tooFar p n
            then (if gt64 (abs64 (dxTo p n)) (abs64 (dyTo p n))
                  then (if gt64 (dxTo p n) (Finite 0) then East else West)
                  else (if gt64 (dyTo p n) (Finite 0) then South else North))
            else facing n)"
    and "lastUpdate (updateNPC M p now n) = now"
    and "followDistance (updateNPC M p now n) = followDistance n"
  using assms
  by (simp_all add: updateNPC_def Let_def tooFar_def distanceTo_def dxTo_def dyTo_def
      xBeforeClamp_def yBeforeClamp_def)

lemma clamp64_inWorld: "0 \<le> hi \<Longrightarrow> 0 \<le> clamp64 x hi \<and> clamp64 x hi \<le> hi"
  by (cases x) (auto simp: max_def min_def)

lemma clamp64_cases:
  "0 \<le> hi \<Longrightarrow>
   clamp64 x hi = (case x of Finite v \<Rightarrow> if v < 0 then 0 else if hi < v then hi else v
                   | PosInf \<Rightarrow> hi | NegInf \<Rightarrow> 0)"
  by (cases x) (auto simp: max_def min_def)

lemma gt64_irrefl [simp]: "\<not> gt64 a a"
  by (cases a) simp_all

subsection \<open>The computed distance at some positions\<close>



lemma sqrt_2500: "sqrt 2500 = 50"
  by (rule real_sqrt_unique) simp_all



lemma distance64_50: "distance64 (Finite 50) (Finite 0) = Finite 50"
  by (simp add: distance64_def mul64_def sqrt_2500)

lemma round64_sqrt_80000: "round64 (sqrt 80000) = Finite (4975821619160760 / 2 ^ 44)"
  using round64_sqrt [of 4975821619160760 44 80000] by (simp add: power2_eq_square)

lemma distance64_tie: "distance64 (Finite 200) (Finite 200) = Finite (4975821619160760 / 2 ^ 44)"
  by (simp add: distance64_def mul64_def round64_sqrt_80000)

lemma distance64_tie': "distance64 (Finite 200) (Finite (- 200)) = Finite (4975821619160760 / 2 ^ 44)"
  by (simp add: distance64_def mul64_def round64_sqrt_80000)

text \<open>
  A player at \<open>(53.12458298862334, 152.6291194698697)\<close> and a companion at
  \<open>(10.342, 62.243)\<close>, as the binary64 numbers these decimals denote: the exact distance
  is below \<open>100\<close>, the computed one is \<open>100.00000000000001\<close>.
\<close>

lemma boundary_dx:
  "sub64 (7476620379743033 / 2 ^ 47) (5822028418283209 / 2 ^ 49) = Finite (6021113275172231 / 2 ^ 47)"
  unfolding sub64_def
  by (subst round64_scaled [where k = 47]) (simp_all add: roundTiesToEven_def)

lemma boundary_dy:
  "sub64 (83908745797167 / 2 ^ 39) (8759923487700681 / 2 ^ 47) = Finite (1590089429546759 / 2 ^ 44)"
  unfolding sub64_def
  by (subst round64_scaled [where k = 46]) (simp_all add: roundTiesToEven_def)

lemma boundary_dx2:
  "mul64 (6021113275172231 / 2 ^ 47) (6021113275172231 / 2 ^ 47) = Finite (8049961824342427 / 2 ^ 42)"
  unfolding mul64_def
  by (subst round64_scaled [where k = 42]) (simp_all add: roundTiesToEven_def)

lemma boundary_dy2:
  "mul64 (1590089429546759 / 2 ^ 44) (1590089429546759 / 2 ^ 44) = Finite (8982625821674395 / 2 ^ 40)"
  unfolding mul64_def
  by (subst round64_scaled [where k = 40]) (simp_all add: roundTiesToEven_def)

lemma boundary_sum:
  "round64 (8049961824342427 / 2 ^ 42 + 8982625821674395 / 2 ^ 40) = Finite (5497558138880001 / 2 ^ 39)"
  by (subst round64_scaled [where k = 39]) (simp_all add: roundTiesToEven_def)

lemma boundary_sqrt:
  "round64 (sqrt (5497558138880001 / 2 ^ 39)) = Finite (7036874417766401 / 2 ^ 46)"
  using round64_sqrt [of 7036874417766401 46 "5497558138880001 / 2 ^ 39"]
  by (simp add: power2_eq_square)

lemma boundary_distance:
  "distance64 (Finite (6021113275172231 / 2 ^ 47)) (Finite (1590089429546759 / 2 ^ 44))
   = Finite (7036874417766401 / 2 ^ 46)"
  by (simp only: distance64_def prod.case number.case boundary_dx2 boundary_dy2 boundary_sum
      boundary_sqrt)

text \<open>
  A player at \<open>(1511.7132879234043, 584.7892625653988)\<close> and a companion at
  \<open>(1430, 459)\<close>: the exact distance is above \<open>150\<close>, the computed one is \<open>150\<close>.
\<close>

lemma edge_dx:
  "sub64 (6648585351741085 / 2 ^ 42) 1430 = Finite (359378840862365 / 2 ^ 42)"
  unfolding sub64_def
  by (subst round64_scaled [where k = 46]) (simp_all add: roundTiesToEven_def)

lemma edge_dy:
  "sub64 (2571930375956833 / 2 ^ 42) 459 = Finite (553227027360097 / 2 ^ 42)"
  unfolding sub64_def
  by (subst round64_scaled [where k = 46]) (simp_all add: roundTiesToEven_def)

lemma edge_dx2:
  "mul64 (359378840862365 / 2 ^ 42) (359378840862365 / 2 ^ 42) = Finite (7341506674241433 / 2 ^ 40)"
  unfolding mul64_def
  by (subst round64_scaled [where k = 40]) (simp_all add: roundTiesToEven_def)

lemma edge_dy2:
  "mul64 (553227027360097 / 2 ^ 42) (553227027360097 / 2 ^ 42) = Finite (4349376237679643 / 2 ^ 38)"
  unfolding mul64_def
  by (subst round64_scaled [where k = 39]) (simp_all add: roundTiesToEven_def)

lemma edge_sum:
  "round64 (7341506674241433 / 2 ^ 40 + 4349376237679643 / 2 ^ 38) = Finite (6184752906240001 / 2 ^ 38)"
  by (subst round64_scaled [where k = 38]) (simp_all add: roundTiesToEven_def)

lemma edge_sqrt:
  "round64 (sqrt (6184752906240001 / 2 ^ 38)) = Finite 150"
  using round64_sqrt [of 5277655813324800 45 "6184752906240001 / 2 ^ 38"]
  by (simp add: power2_eq_square)

lemma edge_distance:
  "distance64 (Finite (359378840862365 / 2 ^ 42)) (Finite (553227027360097 / 2 ^ 42)) = Finite 150"
  by (simp only: distance64_def prod.case number.case edge_dx2 edge_dy2 edge_sum edge_sqrt)

subsection \<open>Lengths of vectors\<close>


lemma vectorLength_nonneg [simp]: "0 \<le> vectorLength a b"
  by (simp add: vectorLength_def)








subsection \<open>The distance the tick computes, for positions within the world\<close>


subsection \<open>The direction of the move\<close>

text \<open>The direction of \<open>Math.atan2(dy, dx)\<close> is the normalised vector \<open>(dx, dy)\<close>.\<close>

lemma sqrt_one_plus_quotient:
  assumes "x \<noteq> 0"
  shows "sqrt (1 + (y / x)\<^sup>2) = sqrt (x * x + y * y) / \<bar>x\<bar>"
proof -
  have "1 + (y / x)\<^sup>2 = (x * x + y * y) / x\<^sup>2"
    using assms by (simp add: field_simps power2_eq_square)
  then show ?thesis
    by (simp add: real_sqrt_divide)
qed

lemma cos_sin_arctan_quotient:
  assumes "x \<noteq> 0"
  shows "cos (arctan (y / x)) = \<bar>x\<bar> / sqrt (x * x + y * y)"
    and "sin (arctan (y / x)) = (y / x) * \<bar>x\<bar> / sqrt (x * x + y * y)"
  using assms by (simp_all add: cos_arctan sin_arctan sqrt_one_plus_quotient)

lemma atan2_direction:
  assumes "x \<noteq> 0 \<or> y \<noteq> 0"
  shows "cos (atan2 y x) = x / sqrt (x * x + y * y)"
    and "sin (atan2 y x) = y / sqrt (x * x + y * y)"
proof -
  consider (pos) "0 < x" | (neg) "x < 0" | (up) "x = 0" "0 < y" | (down) "x = 0" "y < 0"
    using assms by linarith
  then have "cos (atan2 y x) = x / sqrt (x * x + y * y)
             \<and> sin (atan2 y x) = y / sqrt (x * x + y * y)"
  proof cases
    case pos
    then show ?thesis
      by (simp add: atan2_def cos_sin_arctan_quotient)
  next
    case neg
    then show ?thesis
      by (simp add: atan2_def cos_sin_arctan_quotient)
  next
    case up
    then show ?thesis
      by (simp add: atan2_def)
  next
    case down
    then show ?thesis
      by (simp add: atan2_def)
  qed
  then show "cos (atan2 y x) = x / sqrt (x * x + y * y)"
    and "sin (atan2 y x) = y / sqrt (x * x + y * y)"
    by simp_all
qed

text \<open>
  A \<open>Math\<close> whose \<open>atan2\<close>, \<open>cos\<close> and \<open>sin\<close> are correctly rounded is accurate in the sense
  of \<open>accurateAt\<close>, at every non-zero vector.
\<close>

lemma cos_lipschitz: "\<bar>cos a - cos b\<bar> \<le> \<bar>a - b\<bar>" for a b :: real
proof -
  have "\<bar>cos a - cos b\<bar> = 2 * \<bar>sin ((a + b) / 2)\<bar> * \<bar>sin ((b - a) / 2)\<bar>"
    by (simp add: cos_diff_cos abs_mult)
  also have "\<dots> \<le> 2 * 1 * \<bar>(b - a) / 2\<bar>"
    by (intro mult_mono abs_sin_x_le_abs_x) simp_all
  finally show ?thesis
    by simp
qed

lemma sin_lipschitz: "\<bar>sin a - sin b\<bar> \<le> \<bar>a - b\<bar>" for a b :: real
proof -
  have "\<bar>sin a - sin b\<bar> = 2 * \<bar>sin ((a - b) / 2)\<bar> * \<bar>cos ((a + b) / 2)\<bar>"
    by (simp add: sin_diff_sin abs_mult)
  also have "\<dots> \<le> 2 * \<bar>(a - b) / 2\<bar> * 1"
    by (intro mult_mono abs_sin_x_le_abs_x) simp_all
  finally show ?thesis
    by simp
qed

lemma atan2_bounded: "\<bar>atan2 y x\<bar> \<le> 2 ^ 3"
proof -
  define a where "a = arctan (y / x)"
  have a: "- (pi / 2) < a" "a < pi / 2"
    unfolding a_def by (rule arctan_lbound, rule arctan_ubound)
  have p: "0 < pi" "pi < 4"
    by (simp_all add: pi_less_4)
  have "atan2 y x = a \<or> atan2 y x = a + pi \<or> atan2 y x = a - pi
        \<or> atan2 y x = pi / 2 \<or> atan2 y x = - (pi / 2) \<or> atan2 y x = 0 \<or> atan2 y x = pi"
    by (simp add: atan2_def a_def)
  then have "\<bar>atan2 y x\<bar> \<le> 8"
    using a p by (elim disjE) (simp_all only: abs_if split: if_splits, linarith+)
  then show ?thesis
    by simp
qed

lemma roundedMath_error:
  "\<bar>Math_cos roundedMath (Math_atan2 roundedMath (Finite y) (Finite x)) - cos (atan2 y x)\<bar>
   \<le> 1 / 2 ^ 49"
  "\<bar>Math_sin roundedMath (Math_atan2 roundedMath (Finite y) (Finite x)) - sin (atan2 y x)\<bar>
   \<le> 1 / 2 ^ 49"
proof -
  define t where "t = atan2 y x"
  have t: "\<bar>fl t - t\<bar> \<le> 1 / 2 ^ 50"
    using fl_error_bounded [of t 3] atan2_bounded [of y x] by (simp add: t_def)
  have c: "\<bar>fl (cos (fl t)) - cos (fl t)\<bar> \<le> 1 / 2 ^ 53"
    using fl_error_bounded [of "cos (fl t)" 0] by simp
  have s: "\<bar>fl (sin (fl t)) - sin (fl t)\<bar> \<le> 1 / 2 ^ 53"
    using fl_error_bounded [of "sin (fl t)" 0] by simp
  have "\<bar>fl (cos (fl t)) - cos t\<bar> \<le> 1 / 2 ^ 49"
    using c t cos_lipschitz [of "fl t" t] by (simp add: abs_if split: if_splits)
  moreover have "\<bar>fl (sin (fl t)) - sin t\<bar> \<le> 1 / 2 ^ 49"
    using s t sin_lipschitz [of "fl t" t] by (simp add: abs_if split: if_splits)
  ultimately show
    "\<bar>Math_cos roundedMath (Math_atan2 roundedMath (Finite y) (Finite x)) - cos (atan2 y x)\<bar>
     \<le> 1 / 2 ^ 49"
    "\<bar>Math_sin roundedMath (Math_atan2 roundedMath (Finite y) (Finite x)) - sin (atan2 y x)\<bar>
     \<le> 1 / 2 ^ 49"
    by (simp_all add: roundedMath_def t_def)
qed

lemma roundedMath_accurate:
  assumes "x \<noteq> 0 \<or> y \<noteq> 0"
  shows "accurateAt roundedMath (Finite y) (Finite x)"
  using roundedMath_error [of y x]
  by (simp add: accurateAt_def vectorLength_def atan2_direction [OF assms])



subsection \<open>A companion out of reach\<close>




text \<open>
  The hypothesis on the distance is the test of the code, not the exact distance: with the
  player at \<open>(1511.7132879234043, 584.7892625653988)\<close> and the companion at
  \<open>(1430, 459)\<close>, both within the world, the exact distance exceeds the
  \<open>followDistance\<close> of \<open>150\<close>, the computed distance is \<open>150\<close>, and the tick leaves
  the companion where it is, whatever the \<open>Math\<close>.
\<close>

lemma out_of_reach_by_exact_distance_only:
  "updateInterval \<le> 100 - lastUpdate (newNPC ''npc2'' ''Companion'' 1430 459 ''companion'' 150 0) \<and>
   inWorld (6648585351741085 / 2 ^ 42) (2571930375956833 / 2 ^ 42) \<and>
   inWorld 1430 459 \<and>
   followDistance (newNPC ''npc2'' ''Companion'' 1430 459 ''companion'' 150 0)
     < euclideanDistance (playerAt ''p1'' (6648585351741085 / 2 ^ 42) (2571930375956833 / 2 ^ 42))
         (newNPC ''npc2'' ''Companion'' 1430 459 ''companion'' 150 0) \<and>
   distanceTo (playerAt ''p1'' (6648585351741085 / 2 ^ 42) (2571930375956833 / 2 ^ 42))
     (newNPC ''npc2'' ''Companion'' 1430 459 ''companion'' 150 0) = Finite 150 \<and>
   n_x (updateNPC M (playerAt ''p1'' (6648585351741085 / 2 ^ 42) (2571930375956833 / 2 ^ 42)) 100
          (newNPC ''npc2'' ''Companion'' 1430 459 ''companion'' 150 0)) = 1430 \<and>
   n_y (updateNPC M (playerAt ''p1'' (6648585351741085 / 2 ^ 42) (2571930375956833 / 2 ^ 42)) 100
          (newNPC ''npc2'' ''Companion'' 1430 459 ''companion'' 150 0)) = 459"
proof -
  let ?p = "playerAt ''p1'' (6648585351741085 / 2 ^ 42) (2571930375956833 / 2 ^ 42)"
  let ?n = "newNPC ''npc2'' ''Companion'' 1430 459 ''companion'' 150 0"
  have at: "p_x ?p = 6648585351741085 / 2 ^ 42" "p_y ?p = 2571930375956833 / 2 ^ 42"
    "n_x ?n = 1430" "n_y ?n = 459" "followDistance ?n = 150"
    by (simp_all add: playerAt_def newNPC_def)
  have due: "updateInterval \<le> 100 - lastUpdate ?n"
    by (simp add: newNPC_def updateInterval_def)
  have d: "distanceTo ?p ?n = Finite 150"
    by (simp only: distanceTo_def dxTo_def dyTo_def at edge_dx edge_dy edge_distance)
  have near: "\<not> tooFar ?p ?n"
    by (simp only: tooFar_def d at) simp
  have "(150::real)\<^sup>2
        < (6648585351741085 / 2 ^ 42 - 1430) * (6648585351741085 / 2 ^ 42 - 1430)
          + (2571930375956833 / 2 ^ 42 - 459) * (2571930375956833 / 2 ^ 42 - 459)"
    by simp
  then have "(150::real)
        < sqrt ((6648585351741085 / 2 ^ 42 - 1430) * (6648585351741085 / 2 ^ 42 - 1430)
          + (2571930375956833 / 2 ^ 42 - 459) * (2571930375956833 / 2 ^ 42 - 459))"
    by (intro real_less_rsqrt)
  then have far: "followDistance ?n < euclideanDistance ?p ?n"
    by (simp only: euclideanDistance_def vectorLength_def at)
  have w: "inWorld (6648585351741085 / 2 ^ 42) (2571930375956833 / 2 ^ 42)" "inWorld 1430 459"
    by (simp_all add: inWorld_def worldWidth_def worldHeight_def)
  have "n_x (updateNPC M ?p 100 ?n) = 1430" "n_y (updateNPC M ?p 100 ?n) = 459"
    by (simp_all only: updateNPC_fields [OF due] xBeforeClamp_def yBeforeClamp_def near at
        if_False clamp64.simps worldWidth_def worldHeight_def)
  then show ?thesis
    using due w far d by blast
qed

subsection \<open>The facing of a companion that moves\<close>

text \<open>
  Claim C4, as stated: when \<open>|dx| = |dy|\<close> (non-zero), horizontal wins the tie and the
  facing becomes east or west by the sign of \<open>dx\<close>. The code tests \<open>|dx| > |dy|\<close> strictly:
  with the player at \<open>(1200, 1200)\<close> and the companion at \<open>(1000, 1000)\<close>,
  \<open>dx = dy = 200\<close>, the computed distance exceeds the \<open>followDistance\<close> of \<open>100\<close>, and
  the facing becomes south.
\<close>

theorem C4_tie_counterexample:
  "updateInterval \<le> 100 - lastUpdate (newNPC ''npc1'' ''Guardian'' 1000 1000 ''guardian'' 100 0) \<and>
   \<bar>p_x (playerAt ''p1'' 1200 1200) - n_x (newNPC ''npc1'' ''Guardian'' 1000 1000 ''guardian'' 100 0)\<bar>
     = \<bar>p_y (playerAt ''p1'' 1200 1200) - n_y (newNPC ''npc1'' ''Guardian'' 1000 1000 ''guardian'' 100 0)\<bar> \<and>
   0 < p_x (playerAt ''p1'' 1200 1200) - n_x (newNPC ''npc1'' ''Guardian'' 1000 1000 ''guardian'' 100 0) \<and>
   dxTo (playerAt ''p1'' 1200 1200) (newNPC ''npc1'' ''Guardian'' 1000 1000 ''guardian'' 100 0)
     = Finite 200 \<and>
   dyTo (playerAt ''p1'' 1200 1200) (newNPC ''npc1'' ''Guardian'' 1000 1000 ''guardian'' 100 0)
     = Finite 200 \<and>
   tooFar (playerAt ''p1'' 1200 1200) (newNPC ''npc1'' ''Guardian'' 1000 1000 ''guardian'' 100 0) \<and>
   facing (updateNPC roundedMath (playerAt ''p1'' 1200 1200) 100
             (newNPC ''npc1'' ''Guardian'' 1000 1000 ''guardian'' 100 0)) = South"
proof -
  let ?p = "playerAt ''p1'' 1200 1200"
  let ?n = "newNPC ''npc1'' ''Guardian'' 1000 1000 ''guardian'' 100 0"
  have due: "updateInterval \<le> 100 - lastUpdate ?n"
    by (simp add: newNPC_def updateInterval_def)
  have d: "dxTo ?p ?n = Finite 200" "dyTo ?p ?n = Finite 200"
    by (simp_all add: dxTo_def dyTo_def sub64_def playerAt_def newNPC_def)
  have far: "tooFar ?p ?n"
    by (simp add: tooFar_def distanceTo_def d distance64_tie) (simp add: newNPC_def)
  have "facing (updateNPC roundedMath ?p 100 ?n) = South"
    by (simp add: updateNPC_fields [OF due] far d)
  then show ?thesis
    using due d far by (simp add: playerAt_def newNPC_def)
qed

text \<open>
  Claim C4, amended: in the facing update, which a tick runs for a companion it finds out
  of reach, with \<open>dx\<close> and \<open>dy\<close> the deltas as the tick computes them: the facing becomes
  east or west by the sign of \<open>dx\<close> when \<open>|dx| > |dy|\<close> strictly, and otherwise south when
  \<open>dy > 0\<close> and north when not; so when \<open>|dx| = |dy|\<close> vertical wins the tie.
\<close>

theorem C4_facing_update:
  assumes "updateInterval \<le> now - lastUpdate n"
    and "tooFar p n"
  shows "facing (updateNPC M p now n)
         = (if gt64 (abs64 (dxTo p n)) (abs64 (dyTo p n))
            then (if gt64 (dxTo p n) (Finite 0) then East else West)
            else (if gt64 (dyTo p n) (Finite 0) then South else North))
         \<and> (abs64 (dxTo p n) = abs64 (dyTo p n) \<longrightarrow>
              facing (updateNPC M p now n)
              = (if gt64 (dyTo p n) (Finite 0) then South else North))"
  using assms by (simp add: updateNPC_fields)

theorem C4_facing_witness:
  "updateInterval \<le> 100 - lastUpdate (newNPC ''npc3'' ''Pet'' 1000 1000 ''pet'' 80 0) \<and>
   tooFar (playerAt ''p1'' 1200 800) (newNPC ''npc3'' ''Pet'' 1000 1000 ''pet'' 80 0) \<and>
   abs64 (dxTo (playerAt ''p1'' 1200 800) (newNPC ''npc3'' ''Pet'' 1000 1000 ''pet'' 80 0))
     = abs64 (dyTo (playerAt ''p1'' 1200 800) (newNPC ''npc3'' ''Pet'' 1000 1000 ''pet'' 80 0)) \<and>
   facing (updateNPC roundedMath (playerAt ''p1'' 1200 800) 100
             (newNPC ''npc3'' ''Pet'' 1000 1000 ''pet'' 80 0)) = North"
proof -
  let ?p = "playerAt ''p1'' 1200 800"
  let ?n = "newNPC ''npc3'' ''Pet'' 1000 1000 ''pet'' 80 0"
  have due: "updateInterval \<le> 100 - lastUpdate ?n"
    by (simp add: newNPC_def updateInterval_def)
  have d: "dxTo ?p ?n = Finite 200" "dyTo ?p ?n = Finite (- 200)"
    by (simp_all add: dxTo_def dyTo_def sub64_def playerAt_def newNPC_def)
  have far: "tooFar ?p ?n"
    by (simp add: tooFar_def distanceTo_def d distance64_tie') (simp add: newNPC_def)
  from C4_facing_update [OF due far, of roundedMath] show ?thesis
    using due far by (simp add: d)
qed

subsection \<open>A companion within reach\<close>

text \<open>
  Claim C5, as stated: for every companion whose distance to the local player is at most
  its \<open>followDistance\<close> and whose position is within the world bounds, one tick leaves its
  position unchanged, sets its animation frame to \<open>0\<close> and marks it as stationary. The
  tick compares the distance it computes in binary64: with the player at
  \<open>(53.12458298862334, 152.6291194698697)\<close> and the companion at \<open>(10.342, 62.243)\<close> the
  Euclidean distance is below the \<open>followDistance\<close> of \<open>100\<close>, the computed distance is
  \<open>100.00000000000001\<close>, and the tick marks the companion as moving, with animation
  frame \<open>1\<close>.
\<close>

theorem C5_boundary_counterexample:
  "updateInterval
     \<le> 100 - lastUpdate (newNPC ''npc1'' ''Guardian'' (5822028418283209 / 2 ^ 49)
                           (8759923487700681 / 2 ^ 47) ''guardian'' 100 0) \<and>
   euclideanDistance (playerAt ''p1'' (7476620379743033 / 2 ^ 47) (83908745797167 / 2 ^ 39))
       (newNPC ''npc1'' ''Guardian'' (5822028418283209 / 2 ^ 49) (8759923487700681 / 2 ^ 47)
          ''guardian'' 100 0)
     < followDistance (newNPC ''npc1'' ''Guardian'' (5822028418283209 / 2 ^ 49)
                         (8759923487700681 / 2 ^ 47) ''guardian'' 100 0) \<and>
   inWorld (n_x (newNPC ''npc1'' ''Guardian'' (5822028418283209 / 2 ^ 49)
                   (8759923487700681 / 2 ^ 47) ''guardian'' 100 0))
     (n_y (newNPC ''npc1'' ''Guardian'' (5822028418283209 / 2 ^ 49)
             (8759923487700681 / 2 ^ 47) ''guardian'' 100 0)) \<and>
   isMoving (updateNPC roundedMath
               (playerAt ''p1'' (7476620379743033 / 2 ^ 47) (83908745797167 / 2 ^ 39)) 100
               (newNPC ''npc1'' ''Guardian'' (5822028418283209 / 2 ^ 49)
                  (8759923487700681 / 2 ^ 47) ''guardian'' 100 0)) = True \<and>
   animationFrame (updateNPC roundedMath
               (playerAt ''p1'' (7476620379743033 / 2 ^ 47) (83908745797167 / 2 ^ 39)) 100
               (newNPC ''npc1'' ''Guardian'' (5822028418283209 / 2 ^ 49)
                  (8759923487700681 / 2 ^ 47) ''guardian'' 100 0)) = 1"
proof -
  let ?p = "playerAt ''p1'' (7476620379743033 / 2 ^ 47) (83908745797167 / 2 ^ 39)"
  let ?n = "newNPC ''npc1'' ''Guardian'' (5822028418283209 / 2 ^ 49) (8759923487700681 / 2 ^ 47)
              ''guardian'' 100 0"
  have at: "p_x ?p = 7476620379743033 / 2 ^ 47" "p_y ?p = 83908745797167 / 2 ^ 39"
    "n_x ?n = 5822028418283209 / 2 ^ 49" "n_y ?n = 8759923487700681 / 2 ^ 47"
    "followDistance ?n = 100" "lastUpdate ?n = 0" "animationFrame ?n = 0"
    by (simp_all add: playerAt_def newNPC_def)
  have due: "updateInterval \<le> 100 - lastUpdate ?n"
    by (simp add: newNPC_def updateInterval_def)
  have far: "tooFar ?p ?n"
    by (simp only: tooFar_def distanceTo_def dxTo_def dyTo_def at boundary_dx boundary_dy
        boundary_distance) simp
  have "(7476620379743033 / 2 ^ 47 - 5822028418283209 / 2 ^ 49)
        * (7476620379743033 / 2 ^ 47 - 5822028418283209 / 2 ^ 49)
        + (83908745797167 / 2 ^ 39 - 8759923487700681 / 2 ^ 47)
          * (83908745797167 / 2 ^ 39 - 8759923487700681 / 2 ^ 47) < (100::real)\<^sup>2"
    by simp
  then have "sqrt ((7476620379743033 / 2 ^ 47 - 5822028418283209 / 2 ^ 49)
        * (7476620379743033 / 2 ^ 47 - 5822028418283209 / 2 ^ 49)
        + (83908745797167 / 2 ^ 39 - 8759923487700681 / 2 ^ 47)
          * (83908745797167 / 2 ^ 39 - 8759923487700681 / 2 ^ 47)) < (100::real)"
    by (intro real_less_lsqrt) simp_all
  then have near: "euclideanDistance ?p ?n < followDistance ?n"
    by (simp only: euclideanDistance_def vectorLength_def at)
  have nw: "inWorld (n_x ?n) (n_y ?n)"
    by (simp add: newNPC_def inWorld_def worldWidth_def worldHeight_def)
  have "isMoving (updateNPC roundedMath ?p 100 ?n) = True"
    "animationFrame (updateNPC roundedMath ?p 100 ?n) = 1"
    by (simp_all only: updateNPC_fields [OF due] far at if_True) simp
  then show ?thesis
    using due near nw by blast
qed

text \<open>
  Claim C5, amended: for every companion that a tick finds within reach (the distance the
  tick computes in binary64 is at most the \<open>followDistance\<close>) and whose position is within
  the world bounds, the tick leaves its position unchanged, sets its animation frame to
  \<open>0\<close> and marks it as stationary.
\<close>

theorem C5_near_companion_stays:
  assumes "updateInterval \<le> now - lastUpdate n"
    and "\<not> tooFar p n"
    and "inWorld (n_x n) (n_y n)"
  shows "n_x (updateNPC M p now n) = n_x n \<and> n_y (updateNPC M p now n) = n_y n \<and>
         animationFrame (updateNPC M p now n) = 0 \<and> isMoving (updateNPC M p now n) = False"
  using assms
  by (simp add: updateNPC_fields xBeforeClamp_def yBeforeClamp_def inWorld_def
      worldWidth_def worldHeight_def)

theorem C5_near_companion_witness:
  "updateInterval \<le> 100 - lastUpdate (newNPC ''npc1'' ''Guardian'' 1000 1000 ''guardian'' 100 0) \<and>
   \<not> tooFar (playerAt ''p1'' 1050 1000) (newNPC ''npc1'' ''Guardian'' 1000 1000 ''guardian'' 100 0) \<and>
   inWorld (n_x (newNPC ''npc1'' ''Guardian'' 1000 1000 ''guardian'' 100 0))
     (n_y (newNPC ''npc1'' ''Guardian'' 1000 1000 ''guardian'' 100 0)) \<and>
   n_x (updateNPC roundedMath (playerAt ''p1'' 1050 1000) 100
          (newNPC ''npc1'' ''Guardian'' 1000 1000 ''guardian'' 100 0)) = 1000 \<and>
   n_y (updateNPC roundedMath (playerAt ''p1'' 1050 1000) 100
          (newNPC ''npc1'' ''Guardian'' 1000 1000 ''guardian'' 100 0)) = 1000 \<and>
   animationFrame (updateNPC roundedMath (playerAt ''p1'' 1050 1000) 100
          (newNPC ''npc1'' ''Guardian'' 1000 1000 ''guardian'' 100 0)) = 0 \<and>
   isMoving (updateNPC roundedMath (playerAt ''p1'' 1050 1000) 100
          (newNPC ''npc1'' ''Guardian'' 1000 1000 ''guardian'' 100 0)) = False"
proof -
  let ?p = "playerAt ''p1'' 1050 1000"
  let ?n = "newNPC ''npc1'' ''Guardian'' 1000 1000 ''guardian'' 100 0"
  have due: "updateInterval \<le> 100 - lastUpdate ?n"
    by (simp add: newNPC_def updateInterval_def)
  have d: "dxTo ?p ?n = Finite 50" "dyTo ?p ?n = Finite 0"
    by (simp_all add: dxTo_def dyTo_def sub64_def playerAt_def newNPC_def)
  have near: "\<not> tooFar ?p ?n"
    by (simp add: tooFar_def distanceTo_def d distance64_50) (simp add: newNPC_def)
  have nw: "inWorld (n_x ?n) (n_y ?n)"
    by (simp add: inWorld_def newNPC_def worldWidth_def worldHeight_def)
  have at: "n_x ?n = 1000" "n_y ?n = 1000"
    by (simp_all add: newNPC_def)
  from C5_near_companion_stays [OF due near nw, of roundedMath] show ?thesis
    using due near nw by (simp add: at)
qed

subsection \<open>The clamp\<close>

text \<open>
  Claim C6: after every tick of a companion, its position lies within
  \<open>[0, worldWidth] \<times> [0, worldHeight]\<close>: the tick clamps both coordinates as its last
  position step. Each coordinate is the one the tick has computed before the clamp, kept
  when it is within the bounds, \<open>0\<close> when it is below \<open>0\<close>, and the world size when it is
  above.
\<close>

theorem C6_companion_clamped:
  assumes "updateInterval \<le> now - lastUpdate n"
  shows "inWorld (n_x (updateNPC M p now n)) (n_y (updateNPC M p now n)) \<and>
         n_x (updateNPC M p now n)
         = (case xBeforeClamp M p n of
              Finite x \<Rightarrow> if x < 0 then 0 else if worldWidth < x then worldWidth else x
            | PosInf \<Rightarrow> worldWidth
            | NegInf \<Rightarrow> 0) \<and>
         n_y (updateNPC M p now n)
         = (case yBeforeClamp M p n of
              Finite y \<Rightarrow> if y < 0 then 0 else if worldHeight < y then worldHeight else y
            | PosInf \<Rightarrow> worldHeight
            | NegInf \<Rightarrow> 0)"
proof -
  have w: "0 \<le> worldWidth" and h: "0 \<le> worldHeight"
    by (simp_all add: worldWidth_def worldHeight_def)
  show ?thesis
    using clamp64_inWorld [OF w, of "xBeforeClamp M p n"]
      clamp64_inWorld [OF h, of "yBeforeClamp M p n"]
      clamp64_cases [OF w, of "xBeforeClamp M p n"]
      clamp64_cases [OF h, of "yBeforeClamp M p n"]
    by (simp add: updateNPC_fields [OF assms] inWorld_def)
qed

theorem C6_companion_clamped_witness:
  "updateInterval \<le> 100 - lastUpdate (newNPC ''npc1'' ''Guardian'' (- 40) 10 ''guardian'' 100 0) \<and>
   xBeforeClamp roundedMath (playerAt ''p1'' 10 10)
     (newNPC ''npc1'' ''Guardian'' (- 40) 10 ''guardian'' 100 0) = Finite (- 40) \<and>
   yBeforeClamp roundedMath (playerAt ''p1'' 10 10)
     (newNPC ''npc1'' ''Guardian'' (- 40) 10 ''guardian'' 100 0) = Finite 10 \<and>
   inWorld
     (n_x (updateNPC roundedMath (playerAt ''p1'' 10 10) 100
             (newNPC ''npc1'' ''Guardian'' (- 40) 10 ''guardian'' 100 0)))
     (n_y (updateNPC roundedMath (playerAt ''p1'' 10 10) 100
             (newNPC ''npc1'' ''Guardian'' (- 40) 10 ''guardian'' 100 0))) \<and>
   n_x (updateNPC roundedMath (playerAt ''p1'' 10 10) 100
          (newNPC ''npc1'' ''Guardian'' (- 40) 10 ''guardian'' 100 0)) = 0 \<and>
   n_y (updateNPC roundedMath (playerAt ''p1'' 10 10) 100
          (newNPC ''npc1'' ''Guardian'' (- 40) 10 ''guardian'' 100 0)) = 10"
proof -
  let ?p = "playerAt ''p1'' 10 10"
  let ?n = "newNPC ''npc1'' ''Guardian'' (- 40) 10 ''guardian'' 100 0"
  have due: "updateInterval \<le> 100 - lastUpdate ?n"
    by (simp add: newNPC_def updateInterval_def)
  have d: "dxTo ?p ?n = Finite 50" "dyTo ?p ?n = Finite 0"
    by (simp_all add: dxTo_def dyTo_def sub64_def playerAt_def newNPC_def)
  have near: "\<not> tooFar ?p ?n"
    by (simp add: tooFar_def distanceTo_def d distance64_50) (simp add: newNPC_def)
  have b: "xBeforeClamp roundedMath ?p ?n = Finite (- 40)"
    "yBeforeClamp roundedMath ?p ?n = Finite 10"
    by (simp_all add: xBeforeClamp_def yBeforeClamp_def near) (simp_all add: newNPC_def)
  from C6_companion_clamped [OF due, of roundedMath ?p] show ?thesis
    using due by (simp add: b worldWidth_def worldHeight_def inWorld_def)
qed

section \<open>Reconnection\<close>

lemma step_closed_idle:
  "ws s = Some CLOSED \<Longrightarrow> timers s = [] \<Longrightarrow> step e s = None"
  by (cases e) simp_all

text \<open>
  Claim C7: from a connected session, six consecutive transport failures with the budget
  of five attempts schedule exactly five reconnection attempts, the \<open>k\<close>-th delayed by
  \<open>k * 2000\<close> ms, and no sixth: the session ends with its socket closed, no timer
  pending and no event possible any more.
\<close>

theorem C7_six_failures_five_attempts:
  assumes "ws s = Some OPEN" and "reconnectAttempts s = 0" and "timers s = []"
  shows "\<exists>s'. run sixFailures s = Some s' \<and>
           scheduled s' = scheduled s @ [2000, 4000, 6000, 8000, 10000] \<and>
           timers s' = [] \<and> ws s' = Some CLOSED \<and>
           reconnectAttempts s' = maxReconnectAttempts \<and> (\<forall>e. step e s' = None)"
proof -
  let ?s' = "s\<lparr>ws := Some CLOSED, reconnectAttempts := 5,
                scheduled := scheduled s @ [2000, 4000, 6000, 8000, 10000]\<rparr>"
  have r: "run sixFailures s = Some ?s'"
    using assms
    by (simp add: sixFailures_def connectToServer_def onclose_def attemptReconnect_def
        maxReconnectAttempts_def Let_def)
  have "\<forall>e. step e ?s' = None"
    using assms(3) by (simp add: step_closed_idle)
  then show ?thesis
    using r assms(3) by (simp add: maxReconnectAttempts_def)
qed

theorem C7_six_failures_witness:
  "ws (the (step Open (newClient 800 600))) = Some OPEN \<and>
   reconnectAttempts (the (step Open (newClient 800 600))) = 0 \<and>
   timers (the (step Open (newClient 800 600))) = [] \<and>
   (\<exists>s'. run sixFailures (the (step Open (newClient 800 600))) = Some s' \<and>
      scheduled s' = [2000, 4000, 6000, 8000, 10000] \<and>
      timers s' = [] \<and> ws s' = Some CLOSED \<and>
      reconnectAttempts s' = maxReconnectAttempts \<and> (\<forall>e. step e s' = None))"
  using C7_six_failures_five_attempts [of "the (step Open (newClient 800 600))"]
  by (simp add: newClient_def connectToServer_def onopen_def joinGame_def)

text \<open>The reconnection counter along a trace of events.\<close>

lemma run_append:
  "run (es @ fs) s = (case run es s of None \<Rightarrow> None | Some s' \<Rightarrow> run fs s')"
  by (induction es arbitrary: s) (auto split: option.splits)

lemma failuresSinceOpen_snoc:
  "failuresSinceOpen (es @ [e]) =
     (if e = Open then 0 else (if isFailure e then 1 else 0) + failuresSinceOpen es)"
  by (simp add: failuresSinceOpen_def)

lemma step_attempts:
  assumes "step e s = Some s'" and "reconnectAttempts s \<le> maxReconnectAttempts"
  shows "reconnectAttempts s' =
           (if e = Open then 0
            else if isFailure e then min maxReconnectAttempts (reconnectAttempts s + 1)
            else reconnectAttempts s)"
proof (cases e)
  case Open
  then show ?thesis
    using assms by (auto simp: onopen_def joinGame_def split: if_splits)
next
  case Close
  then show ?thesis
    using assms by (auto simp: onclose_def attemptReconnect_def Let_def split: if_splits)
next
  case (TimerFires throws)
  then show ?thesis
    using assms
    by (auto simp: connectToServer_def attemptReconnect_def Let_def split: if_splits list.splits)
qed

lemma attempts_since_open:
  assumes "run es s0 = Some s" and "reconnectAttempts s0 = 0"
  shows "reconnectAttempts s = min maxReconnectAttempts (failuresSinceOpen es)"
  using assms(1)
proof (induction es arbitrary: s rule: rev_induct)
  case Nil
  then show ?case
    using assms(2) by (simp add: failuresSinceOpen_def)
next
  case (snoc e es)
  from snoc.prems obtain s1 where s1: "run es s0 = Some s1" and st: "step e s1 = Some s"
    by (auto simp: run_append split: option.splits)
  have ih: "reconnectAttempts s1 = min maxReconnectAttempts (failuresSinceOpen es)"
    by (rule snoc.IH [OF s1])
  then have "reconnectAttempts s1 \<le> maxReconnectAttempts"
    by simp
  from step_attempts [OF st this] show ?case
    by (auto simp: ih failuresSinceOpen_snoc)
qed

lemma gives_up_iff:
  "(attemptReconnect s = s) = (maxReconnectAttempts \<le> reconnectAttempts s)"
proof
  assume eq: "attemptReconnect s = s"
  show "maxReconnectAttempts \<le> reconnectAttempts s"
  proof (rule ccontr)
    assume "\<not> maxReconnectAttempts \<le> reconnectAttempts s"
    then have "reconnectAttempts (attemptReconnect s) = reconnectAttempts s + 1"
      by (simp add: attemptReconnect_def Let_def)
    then show False
      using eq by simp
  qed
next
  assume "maxReconnectAttempts \<le> reconnectAttempts s"
  then show "attemptReconnect s = s"
    by (simp add: attemptReconnect_def)
qed

text \<open>
  Claim C10: every successful open resets the reconnection counter to \<open>0\<close>, so the
  budget of five attempts holds per disconnection episode. Along every trace of events
  of a client that started with the counter at \<open>0\<close>, the counter is the number of
  transport failures since the last open, capped at five; the next failure schedules
  the attempt with the delay of that number plus one, times \<open>2000\<close> ms; and
  \<open>attemptReconnect\<close> gives up (does nothing) exactly when five failures have followed
  one another with no open in between.
\<close>

theorem C10_reconnect_budget_per_episode:
  assumes "run es s0 = Some s" and "reconnectAttempts s0 = 0"
  shows "reconnectAttempts (onopen s) = 0 \<and>
         reconnectAttempts s = min maxReconnectAttempts (failuresSinceOpen es) \<and>
         (attemptReconnect s = s) = (maxReconnectAttempts \<le> failuresSinceOpen es) \<and>
         scheduled (attemptReconnect s) =
           (if failuresSinceOpen es < maxReconnectAttempts
            then scheduled s @ [2000 * (failuresSinceOpen es + 1)] else scheduled s)"
proof -
  have a: "reconnectAttempts s = min maxReconnectAttempts (failuresSinceOpen es)"
    by (rule attempts_since_open [OF assms])
  have b: "(attemptReconnect s = s) = (maxReconnectAttempts \<le> failuresSinceOpen es)"
    by (simp add: gives_up_iff a)
  have c: "scheduled (attemptReconnect s) =
           (if failuresSinceOpen es < maxReconnectAttempts
            then scheduled s @ [2000 * (failuresSinceOpen es + 1)] else scheduled s)"
    by (auto simp: attemptReconnect_def Let_def a)
  show ?thesis
    using a b c by (simp add: onopen_def joinGame_def)
qed

theorem C10_reconnect_budget_witness:
  "reconnectAttempts (newClient 800 600) = 0 \<and>
   (\<exists>s. run ([Close, TimerFires False, Close, TimerFires False, Open] @ sixFailures)
          (newClient 800 600) = Some s \<and>
        reconnectAttempts s = 5 \<and> attemptReconnect s = s \<and>
        scheduled s = [2000, 4000, 2000, 4000, 6000, 8000, 10000] \<and>
        scheduled (attemptReconnect s) = scheduled s)"
proof -
  obtain s where s:
    "run ([Close, TimerFires False, Close, TimerFires False, Open] @ sixFailures)
       (newClient 800 600) = Some s"
    and sch: "scheduled s = [2000, 4000, 2000, 4000, 6000, 8000, 10000]"
    by (simp add: sixFailures_def newClient_def connectToServer_def onclose_def onopen_def
        joinGame_def attemptReconnect_def maxReconnectAttempts_def Let_def)
  have z: "reconnectAttempts (newClient 800 600) = 0"
    by (simp add: newClient_def connectToServer_def)
  have f: "failuresSinceOpen ([Close, TimerFires False, Close, TimerFires False, Open] @ sixFailures) = 6"
    by (simp add: failuresSinceOpen_def sixFailures_def)
  from C10_reconnect_budget_per_episode [OF s z, unfolded f] show ?thesis
    using s z sch by (simp add: maxReconnectAttempts_def)
qed

section \<open>Inbound message dispatch\<close>

text \<open>
  Claim C8: for every inbound message whose action discriminator is none of
  \<open>join_game\<close>, \<open>player_joined\<close>, \<open>players_moved\<close>, \<open>player_left\<close>, the dispatcher
  returns normally and leaves the client (players, avatars, companions, local player and
  all the rest) as it was.
\<close>

theorem C8_unknown_action_ignored:
  assumes "m_action m \<noteq> Some ''join_game''" and "m_action m \<noteq> Some ''player_joined''"
    and "m_action m \<noteq> Some ''players_moved''" and "m_action m \<noteq> Some ''player_left''"
  shows "handleServerMessage now s m = Inr s"
  using assms by (simp add: handleServerMessage_def)

theorem C8_unknown_action_witness:
  "m_action (messageWithAction ''foo'') \<noteq> Some ''join_game'' \<and>
   m_action (messageWithAction ''foo'') \<noteq> Some ''player_joined'' \<and>
   m_action (messageWithAction ''foo'') \<noteq> Some ''players_moved'' \<and>
   m_action (messageWithAction ''foo'') \<noteq> Some ''player_left'' \<and>
   handleServerMessage 0 (newClient 800 600) (messageWithAction ''foo'') = Inr (newClient 800 600)"
  using C8_unknown_action_ignored [of "messageWithAction ''foo''" 0 "newClient 800 600"]
  by (simp add: messageWithAction_def)

section \<open>Join success\<close>

lemma createNPCs_None: "myPlayer s = None \<Longrightarrow> createNPCs now s = s"
  by (simp add: createNPCs_def)

lemma storeJoined_myPlayerId [simp]: "myPlayerId (storeJoined ps s) = myPlayerId s"
  by (induction ps arbitrary: s) (auto simp: Let_def)

lemma storeJoined_avatars [simp]: "avatars (storeJoined ps s) = avatars s"
  by (induction ps arbitrary: s) (auto simp: Let_def)

lemma storeJoined_no_match:
  "myPlayer s = None \<Longrightarrow> myPlayerId s \<notin> set (map (Some \<circ> fst) ps)
   \<Longrightarrow> myPlayer (storeJoined ps s) = None"
proof (induction ps arbitrary: s)
  case Nil
  then show ?case by simp
next
  case (Cons kd ps)
  obtain k d where kd: "kd = (k, d)"
    by (cases kd)
  let ?s1 = "s\<lparr>players := mapSet k d (players s)\<rparr>"
  have "Some k \<noteq> myPlayerId ?s1"
    using Cons.prems(2) kd by auto
  then have step: "storeJoined (kd # ps) s = storeJoined ps ?s1"
    by (simp add: kd Let_def)
  have "myPlayer (storeJoined ps ?s1) = None"
    using Cons.prems kd by (intro Cons.IH) auto
  then show ?case
    by (simp only: step)
qed

lemma mapSet_values:
  "list_all P (map snd kvs) \<Longrightarrow> P v \<Longrightarrow> list_all P (map snd (mapSet k v kvs))"
  by (induction kvs) auto

lemma fold_mapSet_values:
  "list_all P (map snd new) \<Longrightarrow> list_all P (map snd kvs)
   \<Longrightarrow> list_all P (map snd (fold (\<lambda>(k, v). mapSet k v) new kvs))"
  by (induction new arbitrary: kvs) (auto simp: mapSet_values)

lemma loadAvatarImages_loadable:
  "list_all loadable (map snd avs) \<Longrightarrow> \<exists>avs'. loadAvatarImages avs = Inr avs'"
proof (induction avs)
  case Nil
  then show ?case by simp
next
  case (Cons ka avs)
  obtain k a where ka: "ka = (k, a)"
    by (cases ka)
  from Cons obtain r where r: "loadAvatarImages avs = Inr r"
    by auto
  have "loadable a"
    using Cons.prems ka by simp
  then show ?case
    by (auto simp: ka r loadable_def split: option.splits)
qed

text \<open>
  Claim C9: when the players of a join-success message have no entry under the message's
  \<open>playerId\<close>, the handler leaves the local player \<open>null\<close> (as it is before the first
  join) and then throws at \<open>this.myPlayer.username\<close>: a \<open>TypeError\<close>, not a graceful
  return. The message carries its players and avatars, and every avatar can be loaded.
\<close>

theorem C9_join_without_own_player_throws:
  assumes "myPlayer s = None"
    and "m_players m = Some ps"
    and "m_playerId m \<notin> set (map (Some \<circ> fst) ps)"
    and "m_avatars m = Some avs"
    and "list_all loadable (map snd (avatars s))"
    and "list_all loadable (map snd avs)"
  shows "\<exists>s'. handleJoinGameSuccess now s m = Inl (TypeError ''this.myPlayer.username'', s')
              \<and> myPlayer s' = None"
proof -
  let ?s1 = "s\<lparr>myPlayerId := m_playerId m\<rparr>"
  let ?s2 = "storeJoined ps ?s1"
  let ?avs = "fold (\<lambda>(avatarName, avatarData). mapSet avatarName avatarData) avs (avatars ?s2)"
  have none: "myPlayer ?s2 = None"
    using assms(1,3) by (intro storeJoined_no_match) simp_all
  have av2: "avatars ?s2 = avatars s"
    by simp
  have "list_all loadable (map snd ?avs)"
    using assms(5,6) by (simp add: av2 fold_mapSet_values)
  then obtain avs' where l: "loadAvatarImages ?avs = Inr avs'"
    using loadAvatarImages_loadable by blast
  let ?s3 = "?s2\<lparr>avatars := avs'\<rparr>"
  have n3: "myPlayer ?s3 = None"
    using none by simp
  have "handleJoinGameSuccess now s m = Inl (TypeError ''this.myPlayer.username'', ?s3)"
    using assms(2,4) l n3
    by (simp add: handleJoinGameSuccess_def Let_def createNPCs_None updateViewport_None)
  then show ?thesis
    using n3 by blast
qed

theorem C9_join_without_own_player_witness:
  "myPlayer (newClient 800 600) = None \<and>
   Some ''p1'' \<notin> set (map (Some \<circ> fst) [(''p2'', playerAt ''p2'' 100 100)]) \<and>
   list_all loadable (map snd (avatars (newClient 800 600))) \<and>
   (\<exists>s'. handleJoinGameSuccess 0 (newClient 800 600)
            ((messageWithAction ''join_game'')
               \<lparr>m_success := True, m_playerId := Some ''p1'',
                m_players := Some [(''p2'', playerAt ''p2'' 100 100)], m_avatars := Some []\<rparr>)
          = Inl (TypeError ''this.myPlayer.username'', s') \<and> myPlayer s' = None)"
  using C9_join_without_own_player_throws
    [of "newClient 800 600"
      "(messageWithAction ''join_game'')
         \<lparr>m_success := True, m_playerId := Some ''p1'',
          m_players := Some [(''p2'', playerAt ''p2'' 100 100)], m_avatars := Some []\<rparr>"
      "[(''p2'', playerAt ''p2'' 100 100)]" "[]" 0]
  by (simp add: newClient_def connectToServer_def messageWithAction_def)

section \<open>Invariants of the reachable clients\<close>

text \<open>
  The hypotheses of the properties above hold of every reachable client: the viewport
  origin is untouched while there is no local player and in range always; an open socket
  comes with a reconnection counter at \<open>0\<close> and no pending timer; every companion has a
  follow distance of at least \<open>80\<close>.
\<close>

subsection \<open>What each operation writes\<close>

lemma updateViewport_writes: "updateViewport s = s\<lparr>viewport := viewport (updateViewport s)\<rparr>"
  by (simp add: updateViewport_def Let_def split: option.splits)

lemma updateViewport_myPlayer [simp]: "myPlayer (updateViewport s) = myPlayer s"
  by (simp add: updateViewport_def Let_def split: option.splits)

lemma createNPCs_writes:
  "createNPCs now s = s\<lparr>npcs := npcs (createNPCs now s), npcAvatars := npcAvatars (createNPCs now s)\<rparr>"
  by (simp add: createNPCs_def createNPCAvatars_def Let_def split: option.splits)

lemma storeJoined_writes:
  "storeJoined ps s = s\<lparr>players := players (storeJoined ps s), myPlayer := myPlayer (storeJoined ps s)\<rparr>"
proof (induction ps arbitrary: s)
  case Nil
  show ?case by simp
next
  case (Cons kd ps)
  obtain k d where kd: "kd = (k, d)"
    by (cases kd)
  show ?case
    unfolding kd storeJoined.simps Let_def
    by (subst Cons.IH, subst (2) Cons.IH) (simp split: if_splits)
qed

lemma storeMoved_writes:
  "storeMoved ps s = s\<lparr>players := players (storeMoved ps s), myPlayer := myPlayer (storeMoved ps s),
      viewport := viewport (storeMoved ps s)\<rparr>"
proof (induction ps arbitrary: s)
  case Nil
  show ?case by simp
next
  case (Cons kd ps)
  obtain k d where kd: "kd = (k, d)"
    by (cases kd)
  show ?case
    unfolding kd storeMoved.simps Let_def
    by (subst Cons.IH, subst (2) Cons.IH)
      (auto split: if_splits, subst updateViewport_writes, simp)
qed

subsection \<open>The viewport invariant\<close>

lemma viewportInvariant_frame:
  "myPlayer s' = myPlayer s \<Longrightarrow> viewport s' = viewport s
   \<Longrightarrow> viewportInvariant s' = viewportInvariant s"
  by (simp add: viewportInvariant_def originUntouched_def viewportInRange_def)

lemma viewportInvariant_player:
  "viewportInvariant s \<Longrightarrow> viewport s' = viewport s \<Longrightarrow> myPlayer s' = Some p
   \<Longrightarrow> viewportInvariant s'"
  by (simp add: viewportInvariant_def originUntouched_def viewportInRange_def)

lemma viewportInvariant_updateViewport:
  assumes "originUntouched s"
  shows "viewportInvariant (updateViewport s)"
proof (cases "myPlayer s")
  case None
  then show ?thesis
    using assms by (simp add: viewportInvariant_def updateViewport_None originUntouched_inRange)
next
  case (Some p)
  then show ?thesis
    by (simp add: viewportInvariant_def updateViewport_Some originUntouched_def)
qed

lemma viewportInvariant_storeJoined:
  "viewportInvariant s \<Longrightarrow> viewportInvariant (storeJoined ps s)"
proof (induction ps arbitrary: s)
  case Nil
  then show ?case by simp
next
  case (Cons kd ps)
  obtain k d where kd: "kd = (k, d)"
    by (cases kd)
  let ?s1 = "s\<lparr>players := mapSet k d (players s)\<rparr>"
  have a: "viewportInvariant ?s1"
    using Cons.prems by (simp add: viewportInvariant_frame [of ?s1 s])
  have b: "viewportInvariant (?s1\<lparr>myPlayer := Some d\<rparr>)"
    using Cons.prems by (rule viewportInvariant_player) simp_all
  show ?case
    unfolding kd storeJoined.simps Let_def
    using a b by (auto intro: Cons.IH)
qed

lemma viewportInvariant_storeMoved:
  "viewportInvariant s \<Longrightarrow> viewportInvariant (storeMoved ps s)"
proof (induction ps arbitrary: s)
  case Nil
  then show ?case by simp
next
  case (Cons kd ps)
  obtain k d where kd: "kd = (k, d)"
    by (cases kd)
  let ?s1 = "s\<lparr>players := mapSet k d (players s)\<rparr>"
  have a: "viewportInvariant ?s1"
    using Cons.prems by (simp add: viewportInvariant_frame [of ?s1 s])
  have "originUntouched (?s1\<lparr>myPlayer := Some d\<rparr>)"
    by (simp add: originUntouched_def)
  then have b: "viewportInvariant (updateViewport (?s1\<lparr>myPlayer := Some d\<rparr>))"
    by (rule viewportInvariant_updateViewport)
  show ?case
    unfolding kd storeMoved.simps Let_def
    using a b by (auto intro: Cons.IH)
qed

lemma viewportInvariant_createNPCs:
  "viewportInvariant (createNPCs now s) = viewportInvariant s"
  by (rule viewportInvariant_frame; subst createNPCs_writes; simp)

lemma viewportInvariant_handleJoinGameSuccess:
  assumes "viewportInvariant s"
  shows "case handleJoinGameSuccess now s m of
           Inl (e, s') \<Rightarrow> viewportInvariant s' | Inr s' \<Rightarrow> viewportInvariant s'"
proof -
  have f: "\<And>t avs. viewportInvariant (t\<lparr>avatars := avs\<rparr>) = viewportInvariant t"
    by (rule viewportInvariant_frame) simp_all
  have g: "\<And>t i. viewportInvariant (t\<lparr>myPlayerId := i\<rparr>) = viewportInvariant t"
    by (rule viewportInvariant_frame) simp_all
  have j: "\<And>ps i. viewportInvariant (storeJoined ps (s\<lparr>myPlayerId := i\<rparr>))"
    using assms by (intro viewportInvariant_storeJoined) (simp add: g)
  have u: "\<And>t. viewportInvariant t \<Longrightarrow> viewportInvariant (updateViewport t)"
    by (rule viewportInvariant_updateViewport) (simp add: viewportInvariant_def)
  show ?thesis
    using assms
    by (auto simp: handleJoinGameSuccess_def Let_def f g j u viewportInvariant_createNPCs
        split: option.splits sum.splits)
qed

lemma viewportInvariant_handleServerMessage:
  assumes "viewportInvariant s"
  shows "case handleServerMessage now s m of
           Inl (e, s') \<Rightarrow> viewportInvariant s' | Inr s' \<Rightarrow> viewportInvariant s'"
proof -
  have f: "\<And>t avs. viewportInvariant (t\<lparr>avatars := avs\<rparr>) = viewportInvariant t"
    by (rule viewportInvariant_frame) simp_all
  have p: "\<And>t ps. viewportInvariant (t\<lparr>players := ps\<rparr>) = viewportInvariant t"
    by (rule viewportInvariant_frame) simp_all
  have joined: "case handlePlayerJoined s m of
           Inl (e, s') \<Rightarrow> viewportInvariant s' | Inr s' \<Rightarrow> viewportInvariant s'"
    using assms
    by (auto simp: handlePlayerJoined_def Let_def f p split: option.splits sum.splits)
  have moved: "case handlePlayersMoved s m of
           Inl (e, s') \<Rightarrow> viewportInvariant s' | Inr s' \<Rightarrow> viewportInvariant s'"
    using assms
    by (auto simp: handlePlayersMoved_def viewportInvariant_storeMoved split: option.splits)
  have left: "case handlePlayerLeft s m of
           Inl (e, s') \<Rightarrow> viewportInvariant s' | Inr s' \<Rightarrow> viewportInvariant s'"
    using assms by (auto simp: handlePlayerLeft_def p split: option.splits)
  show ?thesis
    using assms joined moved left viewportInvariant_handleJoinGameSuccess [OF assms, of now m]
    by (simp add: handleServerMessage_def)
qed

lemma viewportInvariant_onmessage:
  assumes "viewportInvariant s"
  shows "viewportInvariant (onmessage now s d)"
proof (cases d)
  case None
  then show ?thesis
    using assms by (simp add: onmessage_def)
next
  case (Some m)
  then show ?thesis
    using viewportInvariant_handleServerMessage [OF assms, of now m]
    by (auto simp: onmessage_def split: sum.splits)
qed

lemma viewportInvariant_onresize:
  assumes "viewportInvariant s"
  shows "viewportInvariant (onresize w h s)"
proof -
  have "originUntouched (s\<lparr>viewport := (viewport s)\<lparr>v_width := w, v_height := h\<rparr>\<rparr>)"
    using assms by (simp add: viewportInvariant_def originUntouched_def)
  then show ?thesis
    unfolding onresize_def by (rule viewportInvariant_updateViewport)
qed

lemma viewportInvariant_updateNPCs:
  "viewportInvariant (updateNPCs M now s) = viewportInvariant s"
  by (rule viewportInvariant_frame) (simp_all add: updateNPCs_def split: option.splits)

lemma viewportInvariant_step:
  "step e s = Some s' \<Longrightarrow> viewportInvariant s' = viewportInvariant s"
  by (rule viewportInvariant_frame; cases e)
    (auto simp: onopen_def joinGame_def onclose_def connectToServer_def attemptReconnect_def
      Let_def split: if_splits list.splits)

lemma viewportInvariant_newClient: "viewportInvariant (newClient w h)"
  by (simp add: viewportInvariant_def originUntouched_def viewportInRange_def
      axisInRange_def newClient_def connectToServer_def)

lemma reachable_viewport:
  "reachable s \<Longrightarrow> originUntouched s \<and> viewportInRange s"
proof -
  assume "reachable s"
  then have "viewportInvariant s"
  proof induction
    case (reachable_new innerWidth innerHeight)
    show ?case by (rule viewportInvariant_newClient)
  next
    case (reachable_resize s innerWidth innerHeight)
    then show ?case by (simp add: viewportInvariant_onresize)
  next
    case (reachable_message s now d)
    then show ?case by (simp add: viewportInvariant_onmessage)
  next
    case (reachable_frame s M now)
    then show ?case by (simp add: viewportInvariant_updateNPCs)
  next
    case (reachable_step s e s')
    then show ?case by (simp add: viewportInvariant_step)
  qed
  then show ?thesis
    by (simp add: viewportInvariant_def)
qed

subsection \<open>The session invariant\<close>

lemma updateViewport_session [simp]:
  "ws (updateViewport s) = ws s"
  "reconnectAttempts (updateViewport s) = reconnectAttempts s"
  "timers (updateViewport s) = timers s"
  "npcs (updateViewport s) = npcs s"
  by (subst updateViewport_writes, simp)+

lemma createNPCs_session [simp]:
  "ws (createNPCs now s) = ws s"
  "reconnectAttempts (createNPCs now s) = reconnectAttempts s"
  "timers (createNPCs now s) = timers s"
  by (subst createNPCs_writes, simp)+

lemma storeJoined_session [simp]:
  "ws (storeJoined ps s) = ws s"
  "reconnectAttempts (storeJoined ps s) = reconnectAttempts s"
  "timers (storeJoined ps s) = timers s"
  "npcs (storeJoined ps s) = npcs s"
  by (subst storeJoined_writes, simp)+

lemma storeMoved_session [simp]:
  "ws (storeMoved ps s) = ws s"
  "reconnectAttempts (storeMoved ps s) = reconnectAttempts s"
  "timers (storeMoved ps s) = timers s"
  "npcs (storeMoved ps s) = npcs s"
  by (subst storeMoved_writes, simp)+

lemma onmessage_session:
  "ws (onmessage now s d) = ws s \<and>
   reconnectAttempts (onmessage now s d) = reconnectAttempts s \<and>
   timers (onmessage now s d) = timers s"
  by (auto simp: onmessage_def handleServerMessage_def handleJoinGameSuccess_def
      handlePlayerJoined_def handlePlayersMoved_def handlePlayerLeft_def Let_def
      split: option.splits sum.splits)

lemma sessionInvariant_frame:
  "ws s' = ws s \<Longrightarrow> reconnectAttempts s' = reconnectAttempts s \<Longrightarrow> timers s' = timers s
   \<Longrightarrow> sessionInvariant s' = sessionInvariant s"
  by (simp add: sessionInvariant_def)

lemma sessionInvariant_step:
  assumes "step e s = Some s'" and "sessionInvariant s"
  shows "sessionInvariant s'"
proof (cases e)
  case Open
  then show ?thesis
    using assms
    by (auto simp: sessionInvariant_def onopen_def joinGame_def split: if_splits)
next
  case Close
  then show ?thesis
    using assms
    by (auto simp: sessionInvariant_def onclose_def attemptReconnect_def Let_def
        split: if_splits)
next
  case (TimerFires throws)
  then show ?thesis
    using assms
    by (auto simp: sessionInvariant_def connectToServer_def attemptReconnect_def Let_def
        split: if_splits list.splits)
qed

lemma reachable_session: "reachable s \<Longrightarrow> sessionInvariant s"
proof (induction rule: reachable.induct)
  case (reachable_new innerWidth innerHeight)
  show ?case
    by (simp add: sessionInvariant_def newClient_def connectToServer_def)
next
  case (reachable_resize s innerWidth innerHeight)
  then show ?case
    by (simp add: onresize_def sessionInvariant_frame [of "updateViewport t" t for t]
        sessionInvariant_def)
next
  case (reachable_message s now d)
  then show ?case
    using onmessage_session [of now s d]
    by (simp add: sessionInvariant_frame [of "onmessage now s d" s])
next
  case (reachable_frame s M now)
  then show ?case
    by (simp add: updateNPCs_def sessionInvariant_def split: option.splits)
next
  case (reachable_step s e s')
  then show ?case
    by (simp add: sessionInvariant_step)
qed

lemma reachable_connected:
  "reachable s \<Longrightarrow> ws s = Some OPEN \<Longrightarrow> reconnectAttempts s = 0 \<and> timers s = []"
  using reachable_session [of s] by (simp add: sessionInvariant_def)

subsection \<open>The companions\<close>

lemma companionsInvariant_createNPCs:
  "companionsInvariant s \<Longrightarrow> companionsInvariant (createNPCs now s)"
  by (auto simp: companionsInvariant_def createNPCs_def createNPCAvatars_def Let_def newNPC_def
      mapSet_values split: option.splits)

lemma updateNPC_followDistance [simp]:
  "followDistance (updateNPC M p now n) = followDistance n"
  by (cases "now - lastUpdate n < updateInterval")
    (simp_all add: updateNPC_skipped updateNPC_fields)

lemma companionsInvariant_updateNPCs:
  "companionsInvariant s \<Longrightarrow> companionsInvariant (updateNPCs M now s)"
  by (auto simp: companionsInvariant_def updateNPCs_def list_all_iff split: option.splits)

lemma companionsInvariant_frame:
  "npcs s' = npcs s \<Longrightarrow> companionsInvariant s' = companionsInvariant s"
  by (simp add: companionsInvariant_def)

lemma companionsInvariant_onmessage:
  assumes "companionsInvariant s"
  shows "companionsInvariant (onmessage now s d)"
proof -
  have c: "\<And>t. npcs t = npcs s \<Longrightarrow> companionsInvariant (createNPCs now t)"
    using assms by (intro companionsInvariant_createNPCs) (simp add: companionsInvariant_def)
  have u: "\<And>t. companionsInvariant (updateViewport t) = companionsInvariant t"
    by (rule companionsInvariant_frame) simp
  show ?thesis
    using assms
    by (auto simp: onmessage_def handleServerMessage_def handleJoinGameSuccess_def
        handlePlayerJoined_def handlePlayersMoved_def handlePlayerLeft_def Let_def u c
        companionsInvariant_frame [of "t\<lparr>avatars := a\<rparr>" t for t a]
        companionsInvariant_frame [of "t\<lparr>players := a\<rparr>" t for t a]
        companionsInvariant_frame [of "t\<lparr>myPlayerId := a\<rparr>" t for t a]
        companionsInvariant_frame [of "storeJoined ps t" t for t ps]
        companionsInvariant_frame [of "storeMoved ps t" t for t ps]
        split: option.splits sum.splits)
qed

lemma reachable_companions: "reachable s \<Longrightarrow> companionsInvariant s"
proof (induction rule: reachable.induct)
  case (reachable_new innerWidth innerHeight)
  show ?case
    by (simp add: companionsInvariant_def newClient_def connectToServer_def)
next
  case (reachable_resize s innerWidth innerHeight)
  then show ?case
    by (simp add: onresize_def companionsInvariant_def)
next
  case (reachable_message s now d)
  then show ?case
    by (simp add: companionsInvariant_onmessage)
next
  case (reachable_frame s M now)
  then show ?case
    by (simp add: companionsInvariant_updateNPCs)
next
  case (reachable_step s e s')
  have "npcs s' = npcs s"
    using reachable_step.hyps(2)
    by (cases e)
      (auto simp: onopen_def joinGame_def onclose_def connectToServer_def attemptReconnect_def
        Let_def split: if_splits list.splits)
  then show ?case
    using reachable_step.IH by (simp add: companionsInvariant_def)
qed

lemma reachable_followDistance:
  "reachable s \<Longrightarrow> (npcId, n) \<in> set (npcs s) \<Longrightarrow> 80 \<le> followDistance n"
  using reachable_companions [of s] by (force simp: companionsInvariant_def list_all_iff)

subsection \<open>The game loop over all companions\<close>

lemma updateNPCs_npcs:
  "myPlayer s = Some p
   \<Longrightarrow> npcs (updateNPCs M now s) = map (\<lambda>(npcId, n). (npcId, updateNPC M p now n)) (npcs s)"
  by (cases "npcs s") (simp_all add: updateNPCs_def)

lemma updateNPCs_no_player: "myPlayer s = None \<Longrightarrow> updateNPCs M now s = s"
  by (simp add: updateNPCs_def)

end
